theory Spec2Isabelle
  imports Complex_Main
begin

section \<open>PaiConv point-cloud model (model.py)\<close>

text \<open>
  Python floats and torch tensors are modelled in exact real arithmetic: a float is a
  \<open>real\<close>, a tensor is a nested list of reals, outermost dimension first. Every statement
  below is therefore about the arithmetic the code denotes, not about rounding.
  Exceptions are values of the type \<open>error\<close>.
\<close>

datatype error = ZeroDivisionError | ValueError | RuntimeError | IndexError

subsection \<open>Kernel-point generator: \<open>fibonacci_sphere\<close>\<close>

text \<open>Python's \<open>%\<close> on floats: the result has the sign of the divisor.\<close>

definition py_fmod :: "real \<Rightarrow> real \<Rightarrow> real" where
  "py_fmod a b = a - b * of_int \<lfloor>a / b\<rfloor>"

text \<open>
  The body of the loop for one index \<open>i\<close>. \<open>math.sqrt\<close> raises \<open>ValueError\<close> on a
  negative argument.
\<close>

definition fib_point :: "int \<Rightarrow> real \<Rightarrow> int \<Rightarrow> error + real list" where
  "fib_point samples rnd i =
     (let offset = 2 / of_int samples;
          increment = pi * (3 - sqrt 5);
          y = ((of_int i * offset) - 1) + (offset / 2)
      in if 1 - y ^ 2 < 0 then Inl ValueError
         else
           let r = sqrt (1 - y ^ 2);
               phi = py_fmod (of_int i + rnd) (of_int samples) * increment;
               x = cos phi * r;
               z = sin phi * r
           in Inr [x, y, z])"

text \<open>The \<open>for\<close> loop over \<open>range(samples-1)\<close>, appending to \<open>points\<close>.\<close>

fun fib_loop :: "int \<Rightarrow> real \<Rightarrow> int list \<Rightarrow> real list list \<Rightarrow> error + real list list" where
  "fib_loop samples rnd [] points = Inr points"
| "fib_loop samples rnd (i # is) points =
     (case fib_point samples rnd i of
        Inl e \<Rightarrow> Inl e
      | Inr p \<Rightarrow> fib_loop samples rnd is (points @ [p]))"

text \<open>
  \<open>fibonacci_sphere samples randomize u\<close>: \<open>u\<close> is the value \<open>random.random()\<close> draws, read
  only when \<open>randomize\<close> holds. \<open>2./samples\<close> raises \<open>ZeroDivisionError\<close> for
  \<open>samples = 0\<close>.
\<close>

definition fibonacci_sphere :: "int \<Rightarrow> bool \<Rightarrow> real \<Rightarrow> error + real list list" where
  "fibonacci_sphere samples randomize u =
     (let rnd = (if randomize then u * of_int samples else 1)
      in if samples = 0 then Inl ZeroDivisionError
         else fib_loop samples rnd [0..samples - 2] [[0, 0, 0]])"

subsection \<open>Tensors\<close>

text \<open>
  A tensor of shape \<open>(batch, feats, num_pts)\<close> is a list of \<open>batch\<close> matrices, each a list
  of \<open>feats\<close> rows of \<open>num_pts\<close> reals. \<open>x.size()\<close> is read off the nesting, so the
  shape of a tensor with an empty dimension is not represented; point clouds have
  \<open>feats = 3\<close>.
\<close>

type_synonym matrix = "real list list"
type_synonym tensor3 = "real list list list"

definition nrows :: "'a list list \<Rightarrow> nat" where
  "nrows m = length m"

definition ncols :: "'a list list \<Rightarrow> nat" where
  "ncols m = (case m of [] \<Rightarrow> 0 | r # _ \<Rightarrow> length r)"

definition size1 :: "tensor3 \<Rightarrow> nat" where
  "size1 x = (case x of [] \<Rightarrow> 0 | xb # _ \<Rightarrow> nrows xb)"

definition size2 :: "tensor3 \<Rightarrow> nat" where
  "size2 x = (case x of [] \<Rightarrow> 0 | xb # _ \<Rightarrow> ncols xb)"

text \<open>\<open>m.transpose(0, 1)\<close> of a matrix with \<open>n\<close> columns.\<close>

definition transpose_m :: "nat \<Rightarrow> 'a list list \<Rightarrow> 'a list list" where
  "transpose_m n m = map (\<lambda>c. map (\<lambda>row. row ! c) m) [0..<n]"

text \<open>\<open>torch.matmul\<close> of two matrices: \<open>out[i][c] = \<Sum>d. a[i][d] * b[d][c]\<close>.\<close>

definition matmul :: "matrix \<Rightarrow> matrix \<Rightarrow> matrix" where
  "matmul a b =
     map (\<lambda>row. map (\<lambda>c. sum_list (map2 (\<lambda>v brow. v * brow ! c) row b)) [0..<ncols b]) a"

text \<open>\<open>t.view(n, k, -1)\<close> of a list of \<open>n * k\<close> rows.\<close>

definition view3 :: "nat \<Rightarrow> nat \<Rightarrow> 'a list \<Rightarrow> 'a list list" where
  "view3 n k rows = map (\<lambda>m. map (\<lambda>p. rows ! (m * k + p)) [0..<k]) [0..<n]"

text \<open>
  \<open>x.permute(0, 2, 1).contiguous().view(bsize*num_pts, feats)\<close>: one row of \<open>feats\<close>
  values per point, the points of batch element 0 first.
\<close>

definition flatten_points :: "nat \<Rightarrow> tensor3 \<Rightarrow> matrix" where
  "flatten_points num_pts x =
     concat (map (\<lambda>xb. map (\<lambda>i. map (\<lambda>r. r ! i) xb) [0..<num_pts]) x)"

text \<open>
  \<open>rows[index, :]\<close>: the rows at the given positions; an \<open>IndexError\<close> when a position
  is out of range.
\<close>

definition gather :: "'a list \<Rightarrow> nat list \<Rightarrow> error + 'a list" where
  "gather rows index =
     (if list_all (\<lambda>j. j < length rows) index then Inr (map (\<lambda>j. rows ! j) index)
      else Inl IndexError)"

text \<open>
  \<open>(idx + idx_base).view(-1)\<close> with \<open>idx_base = arange(0, bsize).view(-1, 1, 1) * num_pts\<close>:
  the neighbor lists of all points in one list, each index moved to its place in the
  flattened \<open>(bsize * num_pts)\<close> buffer.
\<close>

definition offset_index :: "nat \<Rightarrow> nat \<Rightarrow> nat list list list \<Rightarrow> nat list" where
  "offset_index bsize num_pts idx =
     concat (map (\<lambda>b. concat (map (map (\<lambda>j. j + b * num_pts)) (idx ! b))) [0..<bsize])"

text \<open>The first error of a list of results, or all the values.\<close>

fun collect :: "(error + 'v) list \<Rightarrow> error + 'v list" where
  "collect [] = Inr []"
| "collect (Inl e # rs) = Inl e"
| "collect (Inr v # rs) = map_sum id (Cons v) (collect rs)"

subsection \<open>Neighbor indexer: \<open>knn\<close>\<close>

text \<open>
  For one batch element \<open>xb\<close> (\<open>feats\<close> rows of \<open>num_pts\<close> values):
  \<open>inner = -2 * matmul(x.transpose(2, 1), x)\<close>, \<open>xx = sum(x**2, dim=1)\<close>,
  \<open>pairwise_distance = -xx - inner - xx.transpose(2, 1)\<close>.
\<close>

definition inner :: "matrix \<Rightarrow> nat \<Rightarrow> nat \<Rightarrow> real" where
  "inner xb i j = - 2 * sum_list (map (\<lambda>r. r ! i * r ! j) xb)"

definition xx :: "matrix \<Rightarrow> nat \<Rightarrow> real" where
  "xx xb j = sum_list (map (\<lambda>r. (r ! j) ^ 2) xb)"

definition pairwise_distance :: "matrix \<Rightarrow> matrix" where
  "pairwise_distance xb =
     map (\<lambda>i. map (\<lambda>j. - xx xb j - inner xb i j - xx xb i) [0..<ncols xb]) [0..<ncols xb]"

text \<open>
  \<open>row.topk(k)\<close>: the \<open>k\<close> largest values of \<open>row\<close> in descending order, with their
  indices; \<open>RuntimeError\<close> when \<open>k\<close> exceeds the length of \<open>row\<close>. torch leaves the order
  of equal values open; the model puts the lower index first (\<open>sort_key\<close> is stable).
\<close>

definition topk :: "nat \<Rightarrow> real list \<Rightarrow> error + (real list \<times> nat list)" where
  "topk k row =
     (if k > length row then Inl RuntimeError
      else let idx = take k (sort_key (\<lambda>j. - row ! j) [0..<length row])
           in Inr (map (\<lambda>j. row ! j) idx, idx))"

definition knn :: "tensor3 \<Rightarrow> nat \<Rightarrow> error + nat list list list" where
  "knn x k =
     collect (map (\<lambda>xb. collect (map (\<lambda>row. map_sum id snd (topk k row))
                                     (pairwise_distance xb))) x)"

subsection \<open>Soft assignment builder: \<open>PaiIndexMatrix\<close>\<close>

record args =
  args_k :: nat
  args_temp_factor :: real
  args_emb_dims :: nat
  args_dropout :: real

text \<open>
  The parameters of \<open>TemperatureNet\<close>: \<open>temp_factor\<close>, the \<open>Conv1d(3, 64)\<close>, the
  \<open>BatchNorm1d(64)\<close> and the \<open>Linear(64, 1)\<close>.
\<close>

record TemperatureNet =
  tn_temp_factor :: real
  tn_nn_weight :: matrix
  tn_nn_bias :: "real list"
  tn_bn_weight :: "real list"
  tn_bn_bias :: "real list"
  tn_linear_weight :: matrix
  tn_linear_bias :: "real list"

record PaiIndexMatrix =
  pim_k :: nat
  pim_temp_factor :: real
  pim_kernel_size :: nat
  pim_kernels :: matrix
  pim_one_padding :: matrix
  pim_temp_net :: TemperatureNet

text \<open>
  \<open>PaiIndexMatrix.__init__\<close>. \<open>tn\<close> is the freshly initialised \<open>TemperatureNet(args)\<close>.
  \<open>kernels\<close> is the transposed output of \<open>fibonacci_sphere(kernel_size)\<close>, of shape
  \<open>(3, kernel_size)\<close>; \<open>one_padding\<close> is the zero matrix of shape \<open>(k, kernel_size)\<close> with
  entry \<open>(0, 0)\<close> set to 1, an \<open>IndexError\<close> when the matrix has no such entry.
\<close>

definition PaiIndexMatrix_init :: "args \<Rightarrow> nat \<Rightarrow> TemperatureNet \<Rightarrow> error + PaiIndexMatrix" where
  "PaiIndexMatrix_init a kernel_size tn =
     (case fibonacci_sphere (int kernel_size) False 0 of
        Inl e \<Rightarrow> Inl e
      | Inr points \<Rightarrow>
          if args_k a = 0 \<or> kernel_size = 0 then Inl IndexError
          else Inr \<lparr> pim_k = args_k a,
                     pim_temp_factor = args_temp_factor a,
                     pim_kernel_size = kernel_size,
                     pim_kernels = transpose_m 3 points,
                     pim_one_padding =
                       (replicate (args_k a) (replicate kernel_size 0))
                         [0 := (replicate kernel_size 0)[0 := 1]],
                     pim_temp_net = tn \<rparr>)"

text \<open>
  The tensor operations of \<open>topkmax\<close>: \<open>torch.sum(t, dim=1, keepdim=True)\<close> sums, for
  each point and each kernel column, over the neighbors; the division broadcasts the
  resulting \<open>(n, 1, kernel_size)\<close> tensor along dimension 1.
\<close>

definition sum_dim1 :: "tensor3 \<Rightarrow> tensor3" where
  "sum_dim1 t = map (\<lambda>m. [map (\<lambda>c. sum_list (map (\<lambda>row. row ! c) m)) [0..<ncols m]]) t"

definition add_scalar :: "tensor3 \<Rightarrow> real \<Rightarrow> tensor3" where
  "add_scalar t e = map (map (map (\<lambda>v. v + e))) t"

definition div_dim1 :: "tensor3 \<Rightarrow> tensor3 \<Rightarrow> tensor3" where
  "div_dim1 t s = map2 (\<lambda>m sm. map (\<lambda>row. map2 (\<lambda>v d. v / d) row (sm ! 0)) m) t s"

definition mul_t :: "tensor3 \<Rightarrow> tensor3 \<Rightarrow> tensor3" where
  "mul_t a b = map2 (map2 (map2 (\<lambda>v w. v * w))) a b"

text \<open>\<open>torch.where(t > c, t, torch.full_like(t, 0.))\<close>.\<close>

definition where_gt :: "tensor3 \<Rightarrow> real \<Rightarrow> tensor3" where
  "where_gt t c = map (map (map (\<lambda>v. if v > c then v else 0))) t"

definition topkmax :: "tensor3 \<Rightarrow> tensor3" where
  "topkmax permatrix =
     (let permatrix1 = div_dim1 permatrix (add_scalar (sum_dim1 permatrix) (1 / 10 ^ 6));
          permatrix2 = mul_t permatrix1 permatrix1;
          permatrix3 = div_dim1 permatrix2 (add_scalar (sum_dim1 permatrix2) (1 / 10 ^ 6))
      in where_gt permatrix3 (1 / 10))"

text \<open>
  \<open>PaiIndexMatrix.forward\<close>. \<open>knn\<close> raises when \<open>k\<close> exceeds the number of points, the
  indexing \<open>spirals[spirals_index, :]\<close> when an index is out of range, and the matrix
  product with \<open>kernels\<close> unless \<open>feats\<close> is the number of rows of \<open>kernels\<close>.
\<close>

definition PaiIndexMatrix_forward :: "PaiIndexMatrix \<Rightarrow> tensor3 \<Rightarrow> error + (nat list \<times> tensor3)" where
  "PaiIndexMatrix_forward P x =
     (let bsize = length x; feats = size1 x; num_pts = size2 x
      in case knn x (pim_k P) of
           Inl e \<Rightarrow> Inl e
         | Inr idx \<Rightarrow>
             let spirals_index = offset_index bsize num_pts idx;
                 spirals0 = flatten_points num_pts x
             in case gather spirals0 spirals_index of
                  Inl e \<Rightarrow> Inl e
                | Inr rows \<Rightarrow>
                    let spirals = view3 (bsize * num_pts) (pim_k P) rows;
                        x_relative =
                          map (\<lambda>sp. map (\<lambda>row. map2 (\<lambda>v c. v - c) row (sp ! 0)) sp) spirals
                    in if feats \<noteq> nrows (pim_kernels P) then Inl RuntimeError
                       else
                         let permatrix = map (\<lambda>m. matmul m (pim_kernels P)) x_relative;
                             permatrix1 =
                               map (\<lambda>m. map2 (map2 (\<lambda>v w. v + w)) m (pim_one_padding P))
                                 permatrix;
                             permatrix2 = where_gt permatrix1 0;
                             permatrix3 = topkmax permatrix2
                         in Inr (spirals_index, permatrix3))"

subsection \<open>Library layers\<close>

text \<open>
  The torch layers the networks are assembled from, with their parameters as records.
  Weights are taken to have the shapes the constructors give them: a shape mismatch, which
  makes torch raise, is not modelled inside the layers.
\<close>

text \<open>An exception of the first computation ends the whole computation.\<close>

definition then_do :: "error + 'a \<Rightarrow> ('a \<Rightarrow> error + 'b) \<Rightarrow> error + 'b" where
  "then_do r f = (case r of Inl e \<Rightarrow> Inl e | Inr v \<Rightarrow> f v)"

text \<open>\<open>nn.Linear\<close>, applied to one row: \<open>y = W v + b\<close>; \<open>bias=False\<close> is \<open>None\<close>.\<close>

record Linear =
  lin_weight :: matrix
  lin_bias :: "real list option"

definition Linear_forward :: "Linear \<Rightarrow> real list \<Rightarrow> real list" where
  "Linear_forward L v =
     (let y = map (\<lambda>w. sum_list (map2 (\<lambda>a b. a * b) w v)) (lin_weight L)
      in case lin_bias L of None \<Rightarrow> y | Some b \<Rightarrow> map2 (\<lambda>a c. a + c) y b)"

text \<open>
  \<open>nn.Conv1d(in, out, kernel_size=1, bias=False)\<close> on a \<open>(batch, in, num_pts)\<close> tensor:
  \<open>out[b][o][n] = \<Sum>c. W[o][c] * x[b][c][n]\<close>.
\<close>

record Conv1d =
  cv_weight :: matrix

definition Conv1d_forward :: "Conv1d \<Rightarrow> tensor3 \<Rightarrow> tensor3" where
  "Conv1d_forward cv x =
     map (\<lambda>xb. map (\<lambda>w. map (\<lambda>n. sum_list (map2 (\<lambda>a r. a * r ! n) w xb)) [0..<ncols xb])
                  (cv_weight cv)) x"

text \<open>
  \<open>nn.BatchNorm1d\<close> on a \<open>(batch, channels, length)\<close> tensor. In training mode each channel
  is normalised with the mean and the (biased) variance of its own values in the batch, and
  a batch with a single value per channel raises \<open>ValueError\<close>; in evaluation mode the
  stored running statistics are used. In training mode torch also updates the running
  statistics, which the training-mode output does not read; that update is not modelled.
\<close>

record BatchNorm1d =
  bn_weight :: "real list"
  bn_bias :: "real list"
  bn_running_mean :: "real list"
  bn_running_var :: "real list"

definition bn_mean :: "bool \<Rightarrow> BatchNorm1d \<Rightarrow> nat \<Rightarrow> real list \<Rightarrow> real" where
  "bn_mean training bn c vs =
     (if training then sum_list vs / real (length vs) else bn_running_mean bn ! c)"

definition bn_var :: "bool \<Rightarrow> BatchNorm1d \<Rightarrow> nat \<Rightarrow> real list \<Rightarrow> real" where
  "bn_var training bn c vs =
     (if training
      then sum_list (map (\<lambda>v. (v - bn_mean training bn c vs) ^ 2) vs) / real (length vs)
      else bn_running_var bn ! c)"

definition bn_affine :: "bool \<Rightarrow> BatchNorm1d \<Rightarrow> nat \<Rightarrow> real list \<Rightarrow> real \<Rightarrow> real" where
  "bn_affine training bn c vs v =
     (v - bn_mean training bn c vs) / sqrt (bn_var training bn c vs + 1 / 10 ^ 5)
       * bn_weight bn ! c + bn_bias bn ! c"

definition BatchNorm1d_forward :: "bool \<Rightarrow> BatchNorm1d \<Rightarrow> tensor3 \<Rightarrow> error + tensor3" where
  "BatchNorm1d_forward training bn x =
     (if training \<and> length x * size2 x = 1 then Inl ValueError
      else Inr (map (\<lambda>xb. map (\<lambda>c. map (bn_affine training bn c (concat (map (\<lambda>xb. xb ! c) x)))
                                      (xb ! c))
                             [0..<length xb]) x))"

text \<open>The same layer on a \<open>(batch, channels)\<close> matrix: each entry is a channel of length 1.\<close>

definition BatchNorm1d_forward2 :: "bool \<Rightarrow> BatchNorm1d \<Rightarrow> matrix \<Rightarrow> error + matrix" where
  "BatchNorm1d_forward2 training bn x =
     map_sum id (map (map (\<lambda>r. r ! 0)))
       (BatchNorm1d_forward training bn (map (map (\<lambda>v. [v])) x))"

text \<open>
  \<open>nn.Dropout(p)\<close>. In training mode every entry is kept, and scaled by \<open>1 / (1 - p)\<close>,
  or set to 0, as the random generator decides; \<open>keep\<close> holds the decisions the generator
  takes in this call (\<open>True\<close> keeps the entry). In evaluation mode the input is returned.
\<close>

record Dropout =
  dp_p :: real

definition Dropout_forward :: "bool \<Rightarrow> Dropout \<Rightarrow> bool list list \<Rightarrow> matrix \<Rightarrow> matrix" where
  "Dropout_forward training dp keep x =
     (if training
      then map (\<lambda>b. map (\<lambda>j. if keep ! b ! j then x ! b ! j / (1 - dp_p dp) else 0)
                       [0..<length (x ! b)]) [0..<length x]
      else x)"

text \<open>\<open>F.gelu\<close>: \<open>x * \<Phi>(x)\<close> with the Gaussian distribution function, by the series of erf.\<close>

definition erf :: "real \<Rightarrow> real" where
  "erf t = 2 / sqrt pi * (\<Sum>n. (- 1) ^ n * t ^ (2 * n + 1) / (fact n * real (2 * n + 1)))"

definition gelu :: "real \<Rightarrow> real" where
  "gelu x = x * (1 + erf (x / sqrt 2)) / 2"

text \<open>
  \<open>F.adaptive_max_pool1d(x, 1).view(batch_size, -1)\<close> and its average counterpart: the
  maximum and the mean of every channel over the points; an empty channel raises.
\<close>

definition pool_max :: "real list \<Rightarrow> error + real" where
  "pool_max r = (case r of [] \<Rightarrow> Inl RuntimeError | v # vs \<Rightarrow> Inr (fold max vs v))"

definition pool_avg :: "real list \<Rightarrow> error + real" where
  "pool_avg r = (case r of [] \<Rightarrow> Inl RuntimeError | v # vs \<Rightarrow> Inr (sum_list r / real (length r)))"

definition adaptive_max_pool1d :: "tensor3 \<Rightarrow> error + matrix" where
  "adaptive_max_pool1d x = collect (map (\<lambda>xb. collect (map pool_max xb)) x)"

definition adaptive_avg_pool1d :: "tensor3 \<Rightarrow> error + matrix" where
  "adaptive_avg_pool1d x = collect (map (\<lambda>xb. collect (map pool_avg xb)) x)"

subsection \<open>Aggregation layer: \<open>PaiConv\<close>\<close>

record PaiConv =
  pc_k :: nat
  pc_kernel_size :: nat
  pc_in_c :: nat
  pc_out_c :: nat
  pc_conv :: Linear
  pc_bn :: BatchNorm1d

text \<open>
  \<open>PaiConv.forward\<close>: gather the \<open>k\<close> neighbor feature rows of every point, turn them into a
  \<open>feats \<times> k\<close> matrix, multiply it by the point's \<open>k \<times> kernel_size\<close> AssignmentMatrix,
  flatten, apply the linear layer, and normalise over the batch.
\<close>

definition PaiConv_forward ::
  "bool \<Rightarrow> PaiConv \<Rightarrow> tensor3 \<Rightarrow> nat list \<Rightarrow> tensor3 \<Rightarrow> error + tensor3" where
  "PaiConv_forward training L feature spirals_index permatrix =
     (let bsize = length feature; feats = size1 feature; num_pts = size2 feature;
          feature0 = flatten_points num_pts feature
      in then_do (gather feature0 spirals_index) (\<lambda>rows.
           let spirals = view3 (bsize * num_pts) (pc_k L) rows;
               spirals1 = map (transpose_m feats) spirals;
               spirals2 = map2 matmul spirals1 permatrix;
               spirals3 = map concat spirals2;
               out_feat = view3 bsize num_pts (map (Linear_forward (pc_conv L)) spirals3);
               out_feat1 = map (transpose_m (pc_out_c L)) out_feat
           in BatchNorm1d_forward training (pc_bn L) out_feat1))"

subsection \<open>Network assembler: \<open>PaiNet\<close>\<close>

record PaiNet =
  pn_args :: args
  pn_k :: nat
  paiIdxMatrix :: PaiIndexMatrix
  bn5 :: BatchNorm1d
  conv1 :: PaiConv
  conv2 :: PaiConv
  conv3 :: PaiConv
  conv4 :: PaiConv
  conv5 :: Conv1d
  linear1 :: Linear
  bn6 :: BatchNorm1d
  dp1 :: Dropout
  linear2 :: Linear
  bn7 :: BatchNorm1d
  dp2 :: Dropout
  linear3 :: Linear

text \<open>
  A call of a submodule by \<open>PaiNet.forward\<close>, with the arguments it receives: the indexing
  submodule with the input, or convolution layer \<open>i\<close> with its features, the NeighborIndex
  and the AssignmentMatrix.
\<close>

datatype call =
  Call_paiIdxMatrix tensor3
| Call_conv nat tensor3 "nat list" tensor3

text \<open>
  \<open>PaiNet.forward\<close>, returning with the logits the list of the calls it made of the
  indexing submodule and of the four convolution layers, in order, as a forward hook on
  these submodules records them. \<open>training\<close> is the mode of the module; \<open>masks\<close> holds the
  decisions the random generator takes for \<open>dp1\<close> and for \<open>dp2\<close> in this call.
\<close>

definition PaiNet_run ::
  "PaiNet \<Rightarrow> bool \<Rightarrow> bool list list \<times> bool list list \<Rightarrow> tensor3
     \<Rightarrow> error + (matrix \<times> call list)" where
  "PaiNet_run net training masks x =
     (let batch_size = length x
      in then_do (PaiIndexMatrix_forward (paiIdxMatrix net) x) (\<lambda>(spirals_index, permatrix).
         then_do (PaiConv_forward training (conv1 net) x spirals_index permatrix) (\<lambda>y1.
           let x1 = map (map (map gelu)) y1
           in then_do (PaiConv_forward training (conv2 net) x1 spirals_index permatrix) (\<lambda>y2.
           let x2 = map (map (map gelu)) y2
           in then_do (PaiConv_forward training (conv3 net) x2 spirals_index permatrix) (\<lambda>y3.
           let x3 = map (map (map gelu)) y3
           in then_do (PaiConv_forward training (conv4 net) x3 spirals_index permatrix) (\<lambda>y4.
           let x4 = map (map (map gelu)) y4;
               calls = [Call_paiIdxMatrix x,
                        Call_conv 1 x spirals_index permatrix,
                        Call_conv 2 x1 spirals_index permatrix,
                        Call_conv 3 x2 spirals_index permatrix,
                        Call_conv 4 x3 spirals_index permatrix];
               xc = map (\<lambda>b. x1 ! b @ x2 ! b @ x3 ! b @ x4 ! b) [0..<batch_size]
           in then_do (BatchNorm1d_forward training (bn5 net) (Conv1d_forward (conv5 net) xc))
                (\<lambda>y5.
           let x5 = map (map (map gelu)) y5
           in then_do (adaptive_max_pool1d x5) (\<lambda>p1.
              then_do (adaptive_avg_pool1d x5) (\<lambda>p2.
           let x6 = map2 (\<lambda>r1 r2. r1 @ r2) p1 p2
           in then_do (BatchNorm1d_forward2 training (bn6 net)
                         (map (Linear_forward (linear1 net)) x6)) (\<lambda>y6.
           let x7 = Dropout_forward training (dp1 net) (fst masks) (map (map gelu) y6)
           in then_do (BatchNorm1d_forward2 training (bn7 net)
                         (map (Linear_forward (linear2 net)) x7)) (\<lambda>y7.
           let x8 = Dropout_forward training (dp2 net) (snd masks) (map (map gelu) y7)
           in Inr (map (Linear_forward (linear3 net)) x8, calls))))))))))))"

definition PaiNet_forward ::
  "PaiNet \<Rightarrow> bool \<Rightarrow> bool list list \<times> bool list list \<Rightarrow> tensor3 \<Rightarrow> error + matrix" where
  "PaiNet_forward net training masks x = map_sum id fst (PaiNet_run net training masks x)"

section \<open>Notions used in the statements\<close>

text \<open>The height \<open>y\<close> of the \<open>i\<close>-th lattice point.\<close>

definition fib_y :: "int \<Rightarrow> int \<Rightarrow> real" where
  "fib_y samples i = ((of_int i * (2 / of_int samples)) - 1) + ((2 / of_int samples) / 2)"

text \<open>A 3D point on the unit sphere.\<close>

definition on_sphere :: "real list \<Rightarrow> bool" where
  "on_sphere p = (length p = 3 \<and> (p ! 0) ^ 2 + (p ! 1) ^ 2 + (p ! 2) ^ 2 = 1)"

text \<open>A rectangular matrix with \<open>R\<close> rows and \<open>C\<close> columns; a tensor of \<open>B\<close> such matrices.\<close>

definition is_matrix :: "nat \<Rightarrow> nat \<Rightarrow> 'a list list \<Rightarrow> bool" where
  "is_matrix R C m = (length m = R \<and> (\<forall>row \<in> set m. length row = C))"

definition is_tensor3 :: "nat \<Rightarrow> nat \<Rightarrow> nat \<Rightarrow> 'a list list list \<Rightarrow> bool" where
  "is_tensor3 B R C t = (length t = B \<and> (\<forall>m \<in> set t. is_matrix R C m))"

text \<open>Column \<open>c\<close> of a matrix, as a list over its rows.\<close>

definition col :: "'a list list \<Rightarrow> nat \<Rightarrow> 'a list" where
  "col m c = map (\<lambda>row. row ! c) m"

text \<open>
  The pipeline of \<open>topkmax\<close> written for one column (the entries of one kernel anchor
  over the neighbors of one point): normalise, square, normalise, threshold.
\<close>

definition tk_col :: "real list \<Rightarrow> real list" where
  "tk_col v =
     (let v1 = map (\<lambda>a. a / (sum_list v + 1 / 10 ^ 6)) v;
          v2 = map (\<lambda>a. a * a) v1;
          v3 = map (\<lambda>a. a / (sum_list v2 + 1 / 10 ^ 6)) v2
      in map (\<lambda>a. if a > 1 / 10 then a else 0) v3)"

text \<open>One normalisation step and the whole of \<open>topkmax\<close>, for the matrix of one point.\<close>

definition norm_dim1 :: "matrix \<Rightarrow> matrix" where
  "norm_dim1 m = map (\<lambda>row. map (\<lambda>c. row ! c / (sum_list (col m c) + 1 / 10 ^ 6)) [0..<length row]) m"

definition topkmax1 :: "matrix \<Rightarrow> matrix" where
  "topkmax1 m = map (map (\<lambda>a. if a > 1 / 10 then a else 0))
                  (norm_dim1 (map (map (\<lambda>a. a * a)) (norm_dim1 m)))"

text \<open>Squared Euclidean distance between the points \<open>i\<close> and \<open>j\<close> of one cloud.\<close>

definition sqdist :: "matrix \<Rightarrow> nat \<Rightarrow> nat \<Rightarrow> real" where
  "sqdist xb i j = sum_list (map (\<lambda>r. (r ! i - r ! j) ^ 2) xb)"

text \<open>The \<open>k\<close> indices nearest to point \<open>i\<close>, nearest first, the lower index first among equals.\<close>

definition nearest :: "matrix \<Rightarrow> nat \<Rightarrow> nat \<Rightarrow> nat list" where
  "nearest xb k i = take k (sort_key (\<lambda>j. sqdist xb i j) [0..<ncols xb])"


text \<open>The affinities before \<open>topkmax\<close>, for one point: \<open>sp\<close> holds its gathered neighbors.\<close>

definition affinity :: "PaiIndexMatrix \<Rightarrow> matrix \<Rightarrow> matrix" where
  "affinity P sp =
     map (map (\<lambda>v. if v > 0 then v else 0))
       (map2 (map2 (\<lambda>v w. v + w))
          (matmul (map (\<lambda>row. map2 (\<lambda>v c. v - c) row (sp ! 0)) sp) (pim_kernels P))
          (pim_one_padding P))"

text \<open>The gathered neighbor coordinates \<open>spirals\<close> of \<open>PaiIndexMatrix.forward\<close>.\<close>

definition gathered :: "nat \<Rightarrow> tensor3 \<Rightarrow> nat list list list \<Rightarrow> tensor3" where
  "gathered k x idx =
     view3 (length x * size2 x) k
       (map (\<lambda>j. flatten_points (size2 x) x ! j) (offset_index (length x) (size2 x) idx))"

text \<open>A tensor without negative entries.\<close>

definition nonneg3 :: "tensor3 \<Rightarrow> bool" where
  "nonneg3 t = (\<forall>m \<in> set t. \<forall>row \<in> set m. \<forall>a \<in> set row. 0 \<le> a)"

text \<open>
  Inputs used to exercise the statements: a configuration with \<open>k = 2\<close>, a
  \<open>TemperatureNet\<close>, a cloud of the two points \<open>(0, 0, 0)\<close> and \<open>(0, -1, 0)\<close> with the
  AssignmentMatrix the builder returns for it (four kernel anchors), a cloud of three
  distinct points on a line, and a cloud in which points 1 and 2 coincide.
\<close>

definition sample_temp_net :: TemperatureNet where
  "sample_temp_net = \<lparr> tn_temp_factor = 100, tn_nn_weight = replicate 64 [0, 0, 0],
     tn_nn_bias = replicate 64 0, tn_bn_weight = replicate 64 1, tn_bn_bias = replicate 64 0,
     tn_linear_weight = [replicate 64 0], tn_linear_bias = [0] \<rparr>"

definition sample_args :: args where
  "sample_args = \<lparr> args_k = 2, args_temp_factor = 100, args_emb_dims = 1024,
     args_dropout = 1 / 2 \<rparr>"







text \<open>
  What \<open>__init__\<close> fixes of an instance: the configuration, the widths of the layers and
  the shapes of their parameters (the values of the learnable parameters are free).
\<close>

definition Linear_constructed :: "nat \<Rightarrow> nat \<Rightarrow> bool \<Rightarrow> Linear \<Rightarrow> bool" where
  "Linear_constructed n_in n_out has_bias L =
     (is_matrix n_out n_in (lin_weight L)
      \<and> (case lin_bias L of None \<Rightarrow> \<not> has_bias | Some b \<Rightarrow> has_bias \<and> length b = n_out))"

definition BatchNorm1d_constructed :: "nat \<Rightarrow> BatchNorm1d \<Rightarrow> bool" where
  "BatchNorm1d_constructed n bn =
     (length (bn_weight bn) = n \<and> length (bn_bias bn) = n
      \<and> length (bn_running_mean bn) = n \<and> length (bn_running_var bn) = n)"

definition PaiConv_constructed :: "nat \<Rightarrow> nat \<Rightarrow> nat \<Rightarrow> nat \<Rightarrow> PaiConv \<Rightarrow> bool" where
  "PaiConv_constructed in_c out_c k kernel_size L =
     (pc_k L = k \<and> pc_kernel_size L = kernel_size \<and> pc_in_c L = in_c \<and> pc_out_c L = out_c
      \<and> Linear_constructed (in_c * kernel_size) out_c True (pc_conv L)
      \<and> BatchNorm1d_constructed out_c (pc_bn L))"

definition PaiNet_constructed :: "args \<Rightarrow> nat \<Rightarrow> PaiNet \<Rightarrow> bool" where
  "PaiNet_constructed a output_channels net =
     (pn_args net = a \<and> pn_k net = args_k a
      \<and> PaiIndexMatrix_init a 16 (pim_temp_net (paiIdxMatrix net)) = Inr (paiIdxMatrix net)
      \<and> BatchNorm1d_constructed (args_emb_dims a) (bn5 net)
      \<and> PaiConv_constructed 3 64 (args_k a) 16 (conv1 net)
      \<and> PaiConv_constructed 64 64 (args_k a) 16 (conv2 net)
      \<and> PaiConv_constructed 64 128 (args_k a) 16 (conv3 net)
      \<and> PaiConv_constructed 128 256 (args_k a) 16 (conv4 net)
      \<and> is_matrix (args_emb_dims a) 512 (cv_weight (conv5 net))
      \<and> Linear_constructed (args_emb_dims a * 2) 512 False (linear1 net)
      \<and> BatchNorm1d_constructed 512 (bn6 net)
      \<and> dp_p (dp1 net) = args_dropout a
      \<and> Linear_constructed 512 256 True (linear2 net)
      \<and> BatchNorm1d_constructed 256 (bn7 net)
      \<and> dp_p (dp2 net) = args_dropout a
      \<and> Linear_constructed 256 output_channels True (linear3 net)
      \<and> 0 \<le> args_dropout a \<and> args_dropout a \<le> 1 \<and> 1 \<le> args_emb_dims a)"

text \<open>
  A constructed network with \<open>k = 2\<close>, one output class, all weights 0 except the first
  weight of \<open>linear3\<close>, the weight of \<open>bn7\<close> 0 and its bias 0.1; a batch of two clouds
  of two points; dropout decisions that keep every entry, and decisions that differ from
  them in one entry of \<open>dp2\<close>.
\<close>

definition sample_bn :: "nat \<Rightarrow> BatchNorm1d" where
  "sample_bn n = \<lparr> bn_weight = replicate n 1, bn_bias = replicate n 0,
     bn_running_mean = replicate n 0, bn_running_var = replicate n 1 \<rparr>"

definition sample_conv :: "nat \<Rightarrow> nat \<Rightarrow> PaiConv" where
  "sample_conv in_c out_c = \<lparr> pc_k = 2, pc_kernel_size = 16, pc_in_c = in_c, pc_out_c = out_c,
     pc_conv = \<lparr> lin_weight = replicate out_c (replicate (in_c * 16) 0),
                 lin_bias = Some (replicate out_c 0) \<rparr>,
     pc_bn = sample_bn out_c \<rparr>"

definition sample_net :: PaiNet where
  "sample_net = \<lparr> pn_args = sample_args, pn_k = 2,
     paiIdxMatrix = projr (PaiIndexMatrix_init sample_args 16 sample_temp_net),
     bn5 = sample_bn 1024,
     conv1 = sample_conv 3 64, conv2 = sample_conv 64 64,
     conv3 = sample_conv 64 128, conv4 = sample_conv 128 256,
     conv5 = \<lparr> cv_weight = replicate 1024 (replicate 512 0) \<rparr>,
     linear1 = \<lparr> lin_weight = replicate 512 (replicate 2048 0), lin_bias = None \<rparr>,
     bn6 = sample_bn 512,
     dp1 = \<lparr> dp_p = 1 / 2 \<rparr>,
     linear2 = \<lparr> lin_weight = replicate 256 (replicate 512 0),
                 lin_bias = Some (replicate 256 0) \<rparr>,
     bn7 = \<lparr> bn_weight = replicate 256 0, bn_bias = replicate 256 (1 / 10),
             bn_running_mean = replicate 256 0, bn_running_var = replicate 256 1 \<rparr>,
     dp2 = \<lparr> dp_p = 1 / 2 \<rparr>,
     linear3 = \<lparr> lin_weight = [1 # replicate 255 0], lin_bias = Some [0] \<rparr> \<rparr>"

definition sample_batch :: tensor3 where
  "sample_batch = [[[0, 0], [0, - 1], [0, 0]], [[0, 1], [0, 0], [0, 0]]]"

definition sample_keep :: "bool list list \<times> bool list list" where
  "sample_keep = (replicate 2 (replicate 512 True), replicate 2 (replicate 256 True))"

definition sample_drop :: "bool list list \<times> bool list list" where
  "sample_drop = (replicate 2 (replicate 512 True),
                  [(replicate 256 True)[0 := False], replicate 256 True])"

section \<open>The kernel-point generator\<close>

lemma fib_y_bounds:
  assumes "0 \<le> i" "i \<le> samples - 2"
  shows "(fib_y samples i) ^ 2 \<le> 1"
proof -
  have s: "0 < (of_int samples :: real)" using assms by simp
  have y: "fib_y samples i = (2 * of_int i + 1) / of_int samples - 1"
    using s by (simp add: fib_y_def field_simps)
  have "0 \<le> (2 * of_int i + 1 :: real)" using assms by simp
  then have lo: "- 1 \<le> fib_y samples i"
    using s by (simp add: y)
  have "2 * i + 1 \<le> 2 * samples" using assms by simp
  then have "(of_int (2 * i + 1) :: real) \<le> of_int (2 * samples)"
    by (rule of_int_le_iff [THEN iffD2])
  then have "(2 * of_int i + 1 :: real) \<le> 2 * of_int samples" by simp
  then have "(2 * of_int i + 1) / of_int samples \<le> (2 :: real)"
    using s by (simp add: field_simps)
  then have hi: "fib_y samples i \<le> 1" by (simp add: y)
  from lo hi have "\<bar>fib_y samples i\<bar> \<le> 1" by simp
  then show ?thesis by (simp add: abs_square_le_1)
qed

lemma fib_point_ok:
  assumes "0 \<le> i" "i \<le> samples - 2"
  shows "\<exists>x z. fib_point samples rnd i = Inr [x, fib_y samples i, z]
           \<and> x ^ 2 + (fib_y samples i) ^ 2 + z ^ 2 = 1"
proof -
  let ?y = "fib_y samples i"
  let ?r = "sqrt (1 - ?y ^ 2)"
  let ?phi = "py_fmod (of_int i + rnd) (of_int samples) * (pi * (3 - sqrt 5))"
  have nn: "0 \<le> 1 - ?y ^ 2" using fib_y_bounds [OF assms] by simp
  then have eq: "fib_point samples rnd i = Inr [cos ?phi * ?r, ?y, sin ?phi * ?r]"
    by (simp add: fib_point_def fib_y_def Let_def)
  have r2: "?r ^ 2 = 1 - ?y ^ 2" using nn by simp
  have "(cos ?phi * ?r) ^ 2 + (sin ?phi * ?r) ^ 2 = ((cos ?phi) ^ 2 + (sin ?phi) ^ 2) * ?r ^ 2"
    by (simp only: power_mult_distrib distrib_right)
  also have "\<dots> = 1 - ?y ^ 2" by (simp add: r2)
  finally have "(cos ?phi * ?r) ^ 2 + ?y ^ 2 + (sin ?phi * ?r) ^ 2 = 1" by simp
  with eq show ?thesis by blast
qed

lemma fib_loop_ok:
  assumes "\<forall>i \<in> set is. 0 \<le> i \<and> i \<le> samples - 2"
  shows "\<exists>ps. fib_loop samples rnd is points = Inr (points @ ps)
           \<and> length ps = length is \<and> (\<forall>p \<in> set ps. on_sphere p)"
  using assms
proof (induction "is" arbitrary: points)
  case Nil
  then show ?case by simp
next
  case (Cons i "is")
  from Cons.prems have i: "0 \<le> i" "i \<le> samples - 2" by simp_all
  from fib_point_ok [OF i, of rnd] obtain x z where
    p: "fib_point samples rnd i = Inr [x, fib_y samples i, z]"
    and s: "x ^ 2 + (fib_y samples i) ^ 2 + z ^ 2 = 1" by blast
  from Cons.prems have "\<forall>j \<in> set is. 0 \<le> j \<and> j \<le> samples - 2" by simp
  from Cons.IH [OF this, of "points @ [[x, fib_y samples i, z]]"] obtain ps where
    l: "fib_loop samples rnd is (points @ [[x, fib_y samples i, z]])
          = Inr ((points @ [[x, fib_y samples i, z]]) @ ps)"
    and n: "length ps = length is" and o: "\<forall>p \<in> set ps. on_sphere p" by blast
  have "fib_loop samples rnd (i # is) points = Inr (points @ ([x, fib_y samples i, z] # ps))"
    using p l by simp
  moreover have "length ([x, fib_y samples i, z] # ps) = length (i # is)" using n by simp
  moreover have "\<forall>p \<in> set ([x, fib_y samples i, z] # ps). on_sphere p"
    using o s by (simp add: on_sphere_def)
  ultimately show ?case by blast
qed

lemma fibonacci_sphere_ok:
  assumes "1 \<le> samples"
  shows "\<exists>ps. fibonacci_sphere samples randomize u = Inr ([0, 0, 0] # ps)
           \<and> Suc (length ps) = nat samples \<and> (\<forall>p \<in> set ps. on_sphere p)"
proof -
  let ?rnd = "if randomize then u * of_int samples else 1"
  have "\<forall>i \<in> set [0..samples - 2]. 0 \<le> i \<and> i \<le> samples - 2" by simp
  from fib_loop_ok [OF this, of ?rnd "[[0, 0, 0]]"] obtain ps where
    l: "fib_loop samples ?rnd [0..samples - 2] [[0, 0, 0]] = Inr ([[0, 0, 0]] @ ps)"
    and n: "length ps = length [0..samples - 2]" and o: "\<forall>p \<in> set ps. on_sphere p" by blast
  have "fibonacci_sphere samples randomize u = Inr ([0, 0, 0] # ps)"
    using assms l by (simp add: fibonacci_sphere_def Let_def)
  moreover have "Suc (length ps) = nat samples" using assms n by simp
  ultimately show ?thesis using o by blast
qed

section \<open>The normalisation \<open>topkmax\<close>\<close>

lemma map2_map_same: "map2 f xs (map g xs) = map (\<lambda>x. f x (g x)) xs"
  by (induction xs) simp_all

lemma map2_same: "map2 f xs xs = map (\<lambda>x. f x x) xs"
  by (induction xs) simp_all

lemma ncols_is_matrix: "is_matrix R C m \<Longrightarrow> 0 < R \<Longrightarrow> ncols m = C"
  by (cases m) (auto simp: is_matrix_def ncols_def)

lemma is_matrix_nth: "is_matrix R C m \<Longrightarrow> p < R \<Longrightarrow> length (m ! p) = C"
  by (simp add: is_matrix_def)

lemma div_sum_dim1:
  assumes "\<forall>m \<in> set t. is_matrix R C m"
  shows "div_dim1 t (add_scalar (sum_dim1 t) (1 / 10 ^ 6)) = map norm_dim1 t"
proof -
  have "div_dim1 t (add_scalar (sum_dim1 t) (1 / 10 ^ 6))
      = map (\<lambda>m. map (\<lambda>row. map2 (\<lambda>v d. v / d) row
                (map (\<lambda>c. sum_list (map (\<lambda>row. row ! c) m) + 1 / 10 ^ 6) [0..<ncols m])) m) t"
    by (simp add: div_dim1_def add_scalar_def sum_dim1_def map2_map_same o_def)
  also have "\<dots> = map norm_dim1 t"
  proof (rule map_cong [OF refl])
    fix m assume "m \<in> set t"
    with assms have m: "is_matrix R C m" by blast
    show "map (\<lambda>row. map2 (\<lambda>v d. v / d) row
                (map (\<lambda>c. sum_list (map (\<lambda>row. row ! c) m) + 1 / 10 ^ 6) [0..<ncols m])) m
          = norm_dim1 m"
      unfolding norm_dim1_def
    proof (rule map_cong [OF refl])
      fix row assume r: "row \<in> set m"
      then have "0 < R" using m by (cases m) (auto simp: is_matrix_def)
      then have nc: "ncols m = C" using m by (rule ncols_is_matrix [rotated])
      have lr: "length row = C" using m r by (simp add: is_matrix_def)
      show "map2 (\<lambda>v d. v / d) row
              (map (\<lambda>c. sum_list (map (\<lambda>row. row ! c) m) + 1 / 10 ^ 6) [0..<ncols m])
            = map (\<lambda>c. row ! c / (sum_list (col m c) + 1 / 10 ^ 6)) [0..<length row]"
        by (rule nth_equalityI) (simp_all add: nc lr col_def)
    qed
  qed
  finally show ?thesis .
qed

lemma is_matrix_norm_dim1: "is_matrix R C m \<Longrightarrow> is_matrix R C (norm_dim1 m)"
  by (simp add: is_matrix_def norm_dim1_def)

lemma is_matrix_map_map: "is_matrix R C m \<Longrightarrow> is_matrix R C (map (map f) m)"
  by (simp add: is_matrix_def)

lemma mul_t_same: "mul_t t t = map (map (map (\<lambda>a. a * a))) t"
  by (simp add: mul_t_def map2_same)

lemma topkmax_map:
  assumes "\<forall>m \<in> set t. is_matrix R C m"
  shows "topkmax t = map topkmax1 t"
proof -
  let ?t1 = "map norm_dim1 t"
  let ?t2 = "map (map (map (\<lambda>a. a * a))) ?t1"
  have a: "div_dim1 t (add_scalar (sum_dim1 t) (1 / 10 ^ 6)) = ?t1"
    using assms by (rule div_sum_dim1)
  have b: "mul_t ?t1 ?t1 = ?t2" by (rule mul_t_same)
  have "\<forall>m \<in> set ?t2. is_matrix R C m"
    using assms by (auto intro: is_matrix_norm_dim1 is_matrix_map_map)
  then have c: "div_dim1 ?t2 (add_scalar (sum_dim1 ?t2) (1 / 10 ^ 6)) = map norm_dim1 ?t2"
    by (rule div_sum_dim1)
  have "topkmax t = where_gt (map norm_dim1 ?t2) (1 / 10)"
    by (simp only: topkmax_def Let_def a b c)
  also have "\<dots> = map topkmax1 t"
    by (simp add: where_gt_def topkmax1_def o_def)
  finally show ?thesis .
qed

lemma col_map_map: "col (map (map f) m) c = map f (col m c)"
  if "is_matrix R C m" "c < C"
  using that by (simp add: col_def is_matrix_def)

lemma col_norm_dim1:
  assumes "is_matrix R C m" "c < C"
  shows "col (norm_dim1 m) c = map (\<lambda>a. a / (sum_list (col m c) + 1 / 10 ^ 6)) (col m c)"
  using assms by (simp add: col_def norm_dim1_def is_matrix_def)

lemma col_topkmax1:
  assumes "is_matrix R C m" "c < C"
  shows "col (topkmax1 m) c = tk_col (col m c)"
proof -
  let ?m1 = "norm_dim1 m"
  let ?m2 = "map (map (\<lambda>a. a * a)) ?m1"
  have m1: "is_matrix R C ?m1" using assms(1) by (rule is_matrix_norm_dim1)
  have m2: "is_matrix R C ?m2" using m1 by (rule is_matrix_map_map)
  have m3: "is_matrix R C (norm_dim1 ?m2)" using m2 by (rule is_matrix_norm_dim1)
  have c2: "col ?m2 c = map (\<lambda>a. a * a) (map (\<lambda>a. a / (sum_list (col m c) + 1 / 10 ^ 6)) (col m c))"
    by (simp only: col_map_map [OF m1 assms(2)] col_norm_dim1 [OF assms])
  show ?thesis
    unfolding topkmax1_def
    by (simp only: col_map_map [OF m3 assms(2)] col_norm_dim1 [OF m2 assms(2)] c2 tk_col_def Let_def)
qed

lemma is_matrix_topkmax1: "is_matrix R C m \<Longrightarrow> is_matrix R C (topkmax1 m)"
  unfolding topkmax1_def
  by (intro is_matrix_map_map is_matrix_norm_dim1)

lemma nth_col: "is_matrix R C m \<Longrightarrow> p < R \<Longrightarrow> col m c ! p = m ! p ! c"
  by (simp add: col_def is_matrix_def)

lemma length_col: "length (col m c) = length m"
  by (simp add: col_def)


text \<open>Properties of the pipeline on one column of non-negative entries.\<close>

lemma sum_list_nonneg_le:
  fixes v :: "real list"
  assumes "\<forall>a \<in> set v. 0 \<le> a" "i < length v"
  shows "v ! i \<le> sum_list v"
  using assms member_le_sum_list [of "v ! i" v] by simp

lemma tk_col_nth:
  assumes "i < length v"
  shows "tk_col v ! i =
     (let s = sum_list v + 1 / 10 ^ 6;
          q = sum_list (map (\<lambda>a. (a / s) * (a / s)) v) + 1 / 10 ^ 6;
          r = ((v ! i / s) * (v ! i / s)) / q
      in if r > 1 / 10 then r else 0)"
  using assms by (simp add: tk_col_def Let_def o_def)

lemma tk_col_bounds:
  assumes nn: "\<forall>a \<in> set v. 0 \<le> a" and i: "i < length v"
  shows "0 \<le> tk_col v ! i" "tk_col v ! i \<le> 1"
    "tk_col v ! i \<noteq> 0 \<Longrightarrow> 1 / 10 < tk_col v ! i"
    "v ! i = 0 \<Longrightarrow> tk_col v ! i = 0"
proof -
  define s where "s = sum_list v + 1 / 10 ^ 6"
  define w where "w = map (\<lambda>a. (a / s) * (a / s)) v"
  define q where "q = sum_list w + 1 / 10 ^ 6"
  define r where "r = ((v ! i / s) * (v ! i / s)) / q"
  have t: "tk_col v ! i = (if r > 1 / 10 then r else 0)"
    using tk_col_nth [OF i] by (simp add: Let_def s_def w_def q_def r_def)
  have wnn: "\<forall>a \<in> set w. 0 \<le> a" by (auto simp: w_def)
  have wi: "w ! i = (v ! i / s) * (v ! i / s)" using i by (simp add: w_def)
  have "w ! i \<le> sum_list w" using wnn i by (intro sum_list_nonneg_le) (simp_all add: w_def)
  then have le: "(v ! i / s) * (v ! i / s) \<le> q" by (simp add: q_def wi)
  have "0 \<le> sum_list w" using wnn by (simp add: sum_list_nonneg)
  then have qpos: "0 < q" by (simp add: q_def)
  have "r \<le> q / q" unfolding r_def using le qpos by (intro divide_right_mono) simp_all
  then have rle: "r \<le> 1" using qpos by simp
  show "0 \<le> tk_col v ! i" by (simp add: t)
  show "tk_col v ! i \<le> 1" using rle by (simp add: t)
  show "tk_col v ! i \<noteq> 0 \<Longrightarrow> 1 / 10 < tk_col v ! i" by (simp add: t split: if_splits)
  show "v ! i = 0 \<Longrightarrow> tk_col v ! i = 0" by (simp add: t r_def)
qed


section \<open>The neighbor indexer\<close>

lemma pairwise_distance_sqdist_aux:
  "- xx xb j - inner xb i j - xx xb i = - sqdist xb i j"
  by (induction xb) (simp_all add: xx_def inner_def sqdist_def power2_eq_square algebra_simps)

lemma pairwise_distance_nth:
  assumes "i < ncols xb" "j < ncols xb"
  shows "pairwise_distance xb ! i ! j = - sqdist xb i j"
  using assms by (simp add: pairwise_distance_def pairwise_distance_sqdist_aux)

lemma length_pairwise_distance: "length (pairwise_distance xb) = ncols xb"
  by (simp add: pairwise_distance_def)

lemma length_pairwise_distance_nth:
  "i < ncols xb \<Longrightarrow> length (pairwise_distance xb ! i) = ncols xb"
  by (simp add: pairwise_distance_def)

lemma insort_key_cong_set:
  assumes "f x = g x" "\<forall>y \<in> set ys. f y = g y"
  shows "insort_key f x ys = insort_key g x ys"
  using assms by (induction ys) simp_all

lemma sort_key_cong_set:
  assumes "\<forall>y \<in> set ys. f y = g y"
  shows "sort_key f ys = sort_key g ys"
  using assms
proof (induction ys)
  case Nil
  then show ?case by simp
next
  case (Cons y ys)
  then have "sort_key f ys = sort_key g ys" by simp
  moreover have "insort_key f y (sort_key g ys) = insort_key g y (sort_key g ys)"
    using Cons.prems by (intro insort_key_cong_set) simp_all
  ultimately show ?case by simp
qed

lemma collect_map_Inr: "collect (map (\<lambda>x. Inr (f x)) xs) = Inr (map f xs)"
  by (induction xs) simp_all

lemma topk_indices:
  assumes "i < ncols xb" "k \<le> ncols xb"
  shows "map_sum id snd (topk k (pairwise_distance xb ! i)) = Inr (nearest xb k i)"
proof -
  let ?row = "pairwise_distance xb ! i"
  have l: "length ?row = ncols xb" using assms(1) by (rule length_pairwise_distance_nth)
  have "\<forall>j \<in> set [0..<ncols xb]. - ?row ! j = sqdist xb i j"
    using assms(1) by (simp add: pairwise_distance_nth)
  then have "sort_key (\<lambda>j. - ?row ! j) [0..<ncols xb] = sort_key (\<lambda>j. sqdist xb i j) [0..<ncols xb]"
    by (rule sort_key_cong_set)
  then show ?thesis using assms(2) by (simp add: topk_def l Let_def nearest_def)
qed

lemma knn_batch_ok:
  assumes "k \<le> ncols xb"
  shows "collect (map (\<lambda>row. map_sum id snd (topk k row)) (pairwise_distance xb))
         = Inr (map (nearest xb k) [0..<ncols xb])"
proof -
  have "map (\<lambda>row. map_sum id snd (topk k row)) (pairwise_distance xb)
      = map (\<lambda>i. map_sum id snd (topk k (pairwise_distance xb ! i))) [0..<ncols xb]"
    by (rule nth_equalityI) (simp_all add: length_pairwise_distance)
  also have "\<dots> = map (\<lambda>i. Inr (nearest xb k i)) [0..<ncols xb]"
    using assms by (intro map_cong refl topk_indices) simp_all
  finally show ?thesis by (simp add: collect_map_Inr)
qed

lemma knn_ok:
  assumes "\<forall>xb \<in> set x. k \<le> ncols xb"
  shows "knn x k = Inr (map (\<lambda>xb. map (nearest xb k) [0..<ncols xb]) x)"
proof -
  have "map (\<lambda>xb. collect (map (\<lambda>row. map_sum id snd (topk k row)) (pairwise_distance xb))) x
      = map (\<lambda>xb. Inr (map (nearest xb k) [0..<ncols xb])) x"
  proof (rule map_cong [OF refl])
    fix xb assume "xb \<in> set x"
    with assms have "k \<le> ncols xb" by blast
    then show "collect (map (\<lambda>row. map_sum id snd (topk k row)) (pairwise_distance xb))
               = Inr (map (nearest xb k) [0..<ncols xb])"
      by (rule knn_batch_ok)
  qed
  then show ?thesis by (simp only: knn_def collect_map_Inr)
qed

text \<open>What \<open>nearest\<close> returns.\<close>

lemma nearest_props:
  assumes "k \<le> ncols xb"
  shows "length (nearest xb k i) = k"
    and "distinct (nearest xb k i)"
    and "set (nearest xb k i) \<subseteq> {0..<ncols xb}"
    and "sorted (map (sqdist xb i) (nearest xb k i))"
    and "\<forall>j \<in> set (nearest xb k i). \<forall>l. l < ncols xb \<and> l \<notin> set (nearest xb k i)
           \<longrightarrow> sqdist xb i j \<le> sqdist xb i l"
proof -
  let ?s = "sort_key (\<lambda>j. sqdist xb i j) [0..<ncols xb]"
  have n: "nearest xb k i = take k ?s" by (simp add: nearest_def)
  show "length (nearest xb k i) = k" using assms by (simp add: n)
  show "distinct (nearest xb k i)" by (simp add: n)
  show "set (nearest xb k i) \<subseteq> {0..<ncols xb}"
    using set_take_subset [of k ?s] by (simp add: n)
  have srt: "sorted (map (sqdist xb i) ?s)" by (rule sorted_sort_key)
  have "sorted (take k (map (sqdist xb i) ?s))" using srt by (rule sorted_wrt_take)
  then show "sorted (map (sqdist xb i) (nearest xb k i))" by (simp add: n take_map)
  have "map (sqdist xb i) ?s = map (sqdist xb i) (take k ?s) @ map (sqdist xb i) (drop k ?s)"
    by (simp add: map_append [symmetric] del: map_append)
  with srt have ap: "\<forall>a \<in> set (take k ?s). \<forall>b \<in> set (drop k ?s). sqdist xb i a \<le> sqdist xb i b"
    by (simp add: sorted_append)
  show "\<forall>j \<in> set (nearest xb k i). \<forall>l. l < ncols xb \<and> l \<notin> set (nearest xb k i)
           \<longrightarrow> sqdist xb i j \<le> sqdist xb i l"
  proof (intro ballI allI impI)
    fix j l assume j: "j \<in> set (nearest xb k i)"
      and l: "l < ncols xb \<and> l \<notin> set (nearest xb k i)"
    have "l \<in> set ?s" using l by simp
    then have "l \<in> set (take k ?s @ drop k ?s)" by (simp only: append_take_drop_id)
    then have "l \<in> set (take k ?s) \<or> l \<in> set (drop k ?s)" by (simp only: set_append Un_iff)
    then have "l \<in> set (drop k ?s)" using l by (simp only: n) blast
    with ap j show "sqdist xb i j \<le> sqdist xb i l" by (simp add: n)
  qed
qed







section \<open>The soft assignment builder\<close>


lemma sum_list_all_zero:
  fixes f :: "'a \<Rightarrow> real"
  assumes "\<forall>a \<in> set xs. f a = 0"
  shows "sum_list (map f xs) = 0"
  using assms by (induction xs) simp_all


lemma sum_zip_zero_left:
  fixes row :: "real list"
  assumes "\<forall>v \<in> set row. v = 0"
  shows "sum_list (map2 (\<lambda>v b. v * g b) row bs) = 0"
proof -
  have "sum_list (map (\<lambda>(v, b). v * g b) (zip row bs)) = 0"
    using assms by (intro sum_list_all_zero) (auto dest: set_zip_leftD)
  then show ?thesis by simp
qed


lemma size_is_tensor3:
  assumes "is_tensor3 B D N x" "1 \<le> B" "1 \<le> D"
  shows "size1 x = D" "size2 x = N"
proof -
  from assms obtain xb xs where x: "x = xb # xs" by (cases x) (auto simp: is_tensor3_def)
  with assms have m: "is_matrix D N xb" by (simp add: is_tensor3_def)
  show "size1 x = D" using m by (simp add: x size1_def nrows_def is_matrix_def)
  show "size2 x = N" using m assms(3) by (simp add: x size2_def ncols_is_matrix)
qed

lemma ncols_cloud:
  assumes "is_tensor3 B D N x" "1 \<le> D" "xb \<in> set x"
  shows "ncols xb = N"
  using assms by (auto simp: is_tensor3_def intro: ncols_is_matrix)

lemma length_flatten_points: "length (flatten_points n x) = length x * n"
  by (induction x) (simp_all add: flatten_points_def)

lemma forward_unfold:
  assumes "knn x (pim_k P) = Inr idx" "size1 x = nrows (pim_kernels P)"
    and "list_all (\<lambda>j. j < length x * size2 x) (offset_index (length x) (size2 x) idx)"
  shows "PaiIndexMatrix_forward P x =
     Inr (offset_index (length x) (size2 x) idx,
          topkmax (map (affinity P) (gathered (pim_k P) x idx)))"
  using assms
  by (simp add: PaiIndexMatrix_forward_def Let_def where_gt_def affinity_def [abs_def]
      gathered_def gather_def length_flatten_points o_def)

lemma offset_index_in_range:
  assumes "length idx = B" "\<forall>m \<in> set idx. \<forall>nb \<in> set m. \<forall>j \<in> set nb. j < N"
  shows "list_all (\<lambda>j. j < B * N) (offset_index B N idx)"
proof -
  have "j + b * N < B * N" if "b < B" "j < N" for j b
  proof -
    have "j + b * N < Suc b * N" using that(2) by simp
    also have "\<dots> \<le> B * N" using that(1) by (intro mult_le_mono1) simp
    finally show ?thesis .
  qed
  moreover have "idx ! b \<in> set idx" if "b < B" for b using that assms(1) by simp
  ultimately show ?thesis
    using assms(2) by (fastforce simp: offset_index_def list_all_iff)
qed

lemma length_gathered: "length (gathered k x idx) = length x * size2 x"
  by (simp add: gathered_def view3_def)

lemma length_gathered_nth:
  "m < length x * size2 x \<Longrightarrow> length (gathered k x idx ! m) = k"
  by (simp add: gathered_def view3_def)

text \<open>A constructed indexing module.\<close>

lemma init_fields:
  assumes "PaiIndexMatrix_init a ks tn = Inr P"
  shows "1 \<le> ks" "1 \<le> args_k a" "pim_k P = args_k a"
    "\<exists>ps. length ps = ks - 1 \<and> pim_kernels P = transpose_m 3 ([0, 0, 0] # ps)"
    "pim_one_padding P = (1 # replicate (ks - 1) 0) # replicate (args_k a - 1) (replicate ks 0)"
    "pim_temp_factor P = args_temp_factor a" "pim_temp_net P = tn" "pim_kernel_size P = ks"
proof -
  from assms have nz: "ks \<noteq> 0" "args_k a \<noteq> 0"
    by (auto simp: PaiIndexMatrix_init_def split: sum.splits if_splits)
  then have "1 \<le> int ks" by simp
  from fibonacci_sphere_ok [OF this, of False 0] obtain ps where
    e: "fibonacci_sphere (int ks) False 0 = Inr ([0, 0, 0] # ps)"
    and n: "Suc (length ps) = nat (int ks)" by blast
  have P: "P = \<lparr> pim_k = args_k a, pim_temp_factor = args_temp_factor a,
                 pim_kernel_size = ks, pim_kernels = transpose_m 3 ([0, 0, 0] # ps),
                 pim_one_padding = (replicate (args_k a) (replicate ks 0))
                                     [0 := (replicate ks 0)[0 := 1]],
                 pim_temp_net = tn \<rparr>"
    using assms nz e by (simp add: PaiIndexMatrix_init_def)
  show "1 \<le> ks" "1 \<le> args_k a" using nz by simp_all
  show "pim_k P = args_k a" "pim_temp_factor P = args_temp_factor a" "pim_temp_net P = tn"
    "pim_kernel_size P = ks"
    by (simp_all add: P)
  show "\<exists>ps. length ps = ks - 1 \<and> pim_kernels P = transpose_m 3 ([0, 0, 0] # ps)"
    using n by (intro exI [of _ ps]) (simp add: P)
  obtain k' where k': "args_k a = Suc k'" using nz by (cases "args_k a") auto
  obtain s' where s': "ks = Suc s'" using nz by (cases ks) auto
  show "pim_one_padding P = (1 # replicate (ks - 1) 0) # replicate (args_k a - 1) (replicate ks 0)"
    by (simp add: P k' s')
qed

lemma ncols_transpose_m: "ncols (transpose_m 3 pts) = length pts"
  by (simp add: transpose_m_def ncols_def upt_rec [of 0 3])


lemma is_matrix_map2:
  assumes "is_matrix R C a" "is_matrix R C b"
  shows "is_matrix R C (map2 (map2 f) a b)"
proof -
  have "length (map2 f r r') = C" if "(r, r') \<in> set (zip a b)" for r r'
  proof -
    from that have "r \<in> set a" "r' \<in> set b" by (auto dest: set_zip_leftD set_zip_rightD)
    with assms show ?thesis by (simp add: is_matrix_def)
  qed
  then show ?thesis using assms by (auto simp: is_matrix_def)
qed

lemma is_matrix_matmul: "is_matrix (length a) (ncols b) (matmul a b)"
  by (simp add: is_matrix_def matmul_def)

lemma affinity_shape:
  assumes "length sp = k" "ncols (pim_kernels P) = ks" "is_matrix k ks (pim_one_padding P)"
  shows "is_matrix k ks (affinity P sp)"
proof -
  let ?a = "matmul (map (\<lambda>row. map2 (\<lambda>v c. v - c) row (sp ! 0)) sp) (pim_kernels P)"
  have "is_matrix k ks ?a" using is_matrix_matmul [of "map (\<lambda>row. map2 (\<lambda>v c. v - c) row (sp ! 0)) sp" "pim_kernels P"]
    by (simp add: assms(1,2))
  then have "is_matrix k ks (map2 (map2 (\<lambda>v w. v + w)) ?a (pim_one_padding P))"
    using assms(3) by (rule is_matrix_map2)
  then show ?thesis unfolding affinity_def by (rule is_matrix_map_map)
qed







lemma nrows_transpose_m: "nrows (transpose_m n m) = n"
  by (simp add: nrows_def transpose_m_def)

lemma col_nonneg:
  assumes "\<forall>row \<in> set m. \<forall>a \<in> set row. 0 \<le> (a::real)" "is_matrix R C m" "c < C"
  shows "\<forall>a \<in> set (col m c). 0 \<le> a"
  using assms by (auto simp: col_def is_matrix_def)

lemma topkmax1_nth:
  assumes "is_matrix R C m" "p < R" "c < C"
  shows "topkmax1 m ! p ! c = tk_col (col m c) ! p"
proof -
  have "topkmax1 m ! p ! c = col (topkmax1 m) c ! p"
    using is_matrix_topkmax1 [OF assms(1)] assms(2) by (rule nth_col [symmetric])
  then show ?thesis by (simp only: col_topkmax1 [OF assms(1,3)])
qed

lemma forward_ok:
  assumes init: "PaiIndexMatrix_init a ks tn = Inr P"
    and x: "is_tensor3 B 3 N x" "1 \<le> B" and k: "args_k a \<le> N"
  shows "\<exists>idx G. knn x (args_k a) = Inr idx
           \<and> list_all (\<lambda>j. j < B * N) (offset_index B N idx)
           \<and> length G = B * N \<and> (\<forall>sp \<in> set G. length sp = args_k a)
           \<and> PaiIndexMatrix_forward P x =
               Inr (offset_index B N idx, map (\<lambda>sp. topkmax1 (affinity P sp)) G)"
proof -
  note f = init_fields [OF init]
  from f(4) obtain ps where ps: "length ps = ks - 1"
    "pim_kernels P = transpose_m 3 ([0, 0, 0] # ps)" by blast
  have nc: "ncols (pim_kernels P) = ks" using ps(1) f(1) by (simp add: ps(2) ncols_transpose_m)
  have op: "is_matrix (args_k a) ks (pim_one_padding P)"
    using f(1,2) by (auto simp: f(5) is_matrix_def)
  have sz: "size1 x = 3" "size2 x = N" using x by (simp_all add: size_is_tensor3)
  have lx: "length x = B" using x(1) by (simp add: is_tensor3_def)
  have ncx: "\<forall>xb \<in> set x. ncols xb = N" using ncols_cloud [OF x(1)] by simp
  then have kx: "\<forall>xb \<in> set x. args_k a \<le> ncols xb" using k by simp
  then have kn: "knn x (args_k a) = Inr (map (\<lambda>xb. map (nearest xb (args_k a)) [0..<ncols xb]) x)"
    (is "_ = Inr ?idx") by (rule knn_ok)
  then have kn': "knn x (pim_k P) = Inr ?idx" by (simp only: f(3))
  have "j < N" if "m \<in> set ?idx" "nb \<in> set m" "j \<in> set nb" for m nb j
  proof -
    from that(1,2) obtain xb i where xb: "xb \<in> set x" and nb: "nb = nearest xb (args_k a) i"
      by auto
    have "set nb \<subseteq> {0..<ncols xb}" unfolding nb using kx xb by (intro nearest_props(3)) blast
    then show ?thesis using that(3) ncx xb by auto
  qed
  then have "\<forall>m \<in> set ?idx. \<forall>nb \<in> set m. \<forall>j \<in> set nb. j < N" by blast
  with lx have rng: "list_all (\<lambda>j. j < B * N) (offset_index B N ?idx)"
    by (intro offset_index_in_range) simp
  let ?G = "gathered (args_k a) x ?idx"
  have "size1 x = nrows (pim_kernels P)" by (simp add: sz ps(2) nrows_transpose_m)
  moreover have "list_all (\<lambda>j. j < length x * size2 x) (offset_index (length x) (size2 x) ?idx)"
    using rng by (simp only: lx sz)
  ultimately have "PaiIndexMatrix_forward P x =
     Inr (offset_index (length x) (size2 x) ?idx, topkmax (map (affinity P) (gathered (pim_k P) x ?idx)))"
    by (rule forward_unfold [OF kn'])
  then have fw: "PaiIndexMatrix_forward P x =
     Inr (offset_index B N ?idx, topkmax (map (affinity P) ?G))"
    by (simp only: f(3) sz lx)
  have lG: "length ?G = B * N" by (simp only: length_gathered lx sz)
  have lsp: "\<forall>sp \<in> set ?G. length sp = args_k a"
    by (auto simp: gathered_def view3_def)
  have "\<forall>m \<in> set (map (affinity P) ?G). is_matrix (args_k a) ks m"
    using lsp nc op by (auto intro: affinity_shape)
  then have "topkmax (map (affinity P) ?G) = map topkmax1 (map (affinity P) ?G)"
    by (rule topkmax_map)
  then have "topkmax (map (affinity P) ?G) = map (\<lambda>sp. topkmax1 (affinity P sp)) ?G"
    by (simp add: o_def)
  with fw have fw2: "PaiIndexMatrix_forward P x =
     Inr (offset_index B N ?idx, map (\<lambda>sp. topkmax1 (affinity P sp)) ?G)" by simp
  show ?thesis
    by (rule exI [of _ ?idx], rule exI [of _ ?G]) (intro conjI kn rng lG lsp fw2)
qed


section \<open>Tensor-level facts and evaluations\<close>

lemma topkmax_nth:
  assumes "is_tensor3 B R C t" "b < B" "p < R" "c < C"
  shows "topkmax t ! b ! p ! c = tk_col (col (t ! b) c) ! p"
proof -
  have all: "\<forall>m \<in> set t. is_matrix R C m" using assms(1) by (simp add: is_tensor3_def)
  have l: "length t = B" using assms(1) by (simp add: is_tensor3_def)
  have m: "is_matrix R C (t ! b)" using all l assms(2) by simp
  have "topkmax t ! b = topkmax1 (t ! b)" using l assms(2) by (simp add: topkmax_map [OF all])
  then show ?thesis by (simp only: topkmax1_nth [OF m assms(3,4)])
qed

lemma is_tensor3_topkmax:
  assumes "is_tensor3 B R C t"
  shows "is_tensor3 B R C (topkmax t)"
proof -
  have all: "\<forall>m \<in> set t. is_matrix R C m" using assms(1) by (simp add: is_tensor3_def)
  show ?thesis using assms
    by (auto simp: topkmax_map [OF all] is_tensor3_def intro: is_matrix_topkmax1)
qed

lemma topkmax_retained:
  assumes "is_tensor3 B R C t" "nonneg3 t" "b < B" "p < R" "c < C"
  shows "topkmax t ! b ! p ! c \<noteq> 0 \<Longrightarrow> 1 / 10 \<le> topkmax t ! b ! p ! c"
    and "topkmax t ! b ! p ! c \<le> 1"
    and "t ! b ! p ! c = 0 \<Longrightarrow> topkmax t ! b ! p ! c = 0"
proof -
  have l: "length t = B" using assms(1) by (simp add: is_tensor3_def)
  have mem: "t ! b \<in> set t" using l assms(3) by simp
  then have m: "is_matrix R C (t ! b)" using assms(1) by (simp add: is_tensor3_def)
  have "\<forall>row \<in> set (t ! b). \<forall>a \<in> set row. 0 \<le> a"
    using assms(2) mem by (simp add: nonneg3_def)
  then have nn: "\<forall>a \<in> set (col (t ! b) c). 0 \<le> a" using m assms(5) by (rule col_nonneg)
  have len: "p < length (col (t ! b) c)" using m assms(4) by (simp add: length_col is_matrix_def)
  have e: "topkmax t ! b ! p ! c = tk_col (col (t ! b) c) ! p"
    using assms(1,3,4,5) by (rule topkmax_nth)
  have c: "col (t ! b) c ! p = t ! b ! p ! c" using m assms(4) by (rule nth_col)
  show "topkmax t ! b ! p ! c \<noteq> 0 \<Longrightarrow> 1 / 10 \<le> topkmax t ! b ! p ! c"
    using tk_col_bounds(3) [OF nn len] by (simp add: e)
  show "topkmax t ! b ! p ! c \<le> 1" using tk_col_bounds(2) [OF nn len] by (simp add: e)
  show "t ! b ! p ! c = 0 \<Longrightarrow> topkmax t ! b ! p ! c = 0"
    using tk_col_bounds(4) [OF nn len] by (simp add: e c)
qed

lemma sample_topkmax:
  "topkmax [[[1, 0], [1, 2]]] =
     [[[1000000000000000000 / 2000004000004000001, 0],
       [1000000000000000000 / 2000004000004000001,
        4000000000000000000 / 4000004000004000001]]]"
  by (simp add: topkmax_def Let_def div_dim1_def add_scalar_def sum_dim1_def mul_t_def
      where_gt_def ncols_def upt_rec [of 0 2] upt_rec [of 1 2])

lemma init_ok:
  assumes "1 \<le> ks" "1 \<le> args_k a"
  shows "\<exists>P. PaiIndexMatrix_init a ks tn = Inr P"
proof -
  have "1 \<le> int ks" using assms(1) by simp
  from fibonacci_sphere_ok [OF this, of False 0] obtain ps where
    "fibonacci_sphere (int ks) False 0 = Inr ([0, 0, 0] # ps)" by blast
  then show ?thesis using assms by (simp add: PaiIndexMatrix_init_def)
qed














text \<open>Two coincident points have the same row of distances.\<close>

lemma pairwise_distance_duplicate:
  assumes "col xb i = col xb j" "i < ncols xb" "j < ncols xb"
  shows "pairwise_distance xb ! i = pairwise_distance xb ! j"
proof -
  have e: "\<forall>r \<in> set xb. r ! i = r ! j" using assms(1) by (simp add: col_def)
  have "sqdist xb i l = sqdist xb j l" for l
    unfolding sqdist_def using e by (intro arg_cong [where f = sum_list] map_cong refl) simp
  then show ?thesis
    using assms(2,3)
    by (intro nth_equalityI) (simp_all add: length_pairwise_distance_nth pairwise_distance_nth)
qed



section \<open>The network assembler\<close>


lemma PaiIndexMatrix_forward_temp:
  "PaiIndexMatrix_forward (P\<lparr>pim_temp_factor := t, pim_temp_net := tn\<rparr>) x
     = PaiIndexMatrix_forward P x"
  by (simp add: PaiIndexMatrix_forward_def Let_def split: sum.splits)

lemma PaiNet_run_temp:
  "PaiNet_run (net\<lparr>pn_args := (pn_args net)\<lparr>args_temp_factor := t'\<rparr>,
                    paiIdxMatrix := (paiIdxMatrix net)\<lparr>pim_temp_factor := t, pim_temp_net := tn\<rparr>\<rparr>)
       training masks x
     = PaiNet_run net training masks x"
  by (simp add: PaiNet_run_def PaiIndexMatrix_forward_temp Let_def)

lemma then_do_Inr [simp]: "then_do (Inr v) f = f v"
  by (simp add: then_do_def)

lemma gather_ok:
  "list_all (\<lambda>j. j < length rows) index \<Longrightarrow> gather rows index = Inr (map (\<lambda>j. rows ! j) index)"
  by (simp add: gather_def)

lemma is_tensor3_map3: "is_tensor3 B C N x \<Longrightarrow> is_tensor3 B C N (map (map (map f)) x)"
  by (simp add: is_tensor3_def is_matrix_def)

lemma is_tensor3_view_transpose:
  "is_tensor3 B C N (map (transpose_m C) (view3 B N rows))"
  by (auto simp: is_tensor3_def is_matrix_def view3_def transpose_m_def)

lemma BatchNorm1d_forward_shape:
  assumes "is_tensor3 B C L x" "1 \<le> C" "\<not> (training \<and> B * L = 1)"
  shows "\<exists>y. BatchNorm1d_forward training bn x = Inr y \<and> is_tensor3 B C L y"
proof -
  have lx: "length x = B" using assms(1) by (simp add: is_tensor3_def)
  have ne: "\<not> (training \<and> length x * size2 x = 1)"
  proof (cases "B = 0")
    case True
    then show ?thesis by (simp add: lx)
  next
    case False
    then have "size2 x = L" using assms(1,2) by (intro size_is_tensor3(2) [of B C]) simp_all
    then show ?thesis using assms(3) by (simp add: lx)
  qed
  have "is_tensor3 B C L (map (\<lambda>xb. map (\<lambda>c. map (bn_affine training bn c (concat (map (\<lambda>xb. xb ! c) x)))
                                      (xb ! c)) [0..<length xb]) x)"
    using assms(1) by (auto simp: is_tensor3_def is_matrix_def)
  then show ?thesis using ne by (auto simp: BatchNorm1d_forward_def)
qed

lemma BatchNorm1d_forward2_shape:
  assumes "is_matrix B C x" "1 \<le> C" "\<not> (training \<and> B = 1)"
  shows "\<exists>y. BatchNorm1d_forward2 training bn x = Inr y \<and> is_matrix B C y"
proof -
  have "is_tensor3 B C 1 (map (map (\<lambda>v. [v])) x)"
    using assms(1) by (auto simp: is_tensor3_def is_matrix_def)
  moreover have "\<not> (training \<and> B * 1 = 1)" using assms(3) by simp
  ultimately obtain y where y: "BatchNorm1d_forward training bn (map (map (\<lambda>v. [v])) x) = Inr y"
    "is_tensor3 B C 1 y"
    using BatchNorm1d_forward_shape [OF _ assms(2), of B 1 "map (map (\<lambda>v. [v])) x" training bn]
    by blast
  have "is_matrix B C (map (map (\<lambda>r. r ! 0)) y)"
    using y(2) by (auto simp: is_tensor3_def is_matrix_def)
  then show ?thesis by (simp add: BatchNorm1d_forward2_def y(1))
qed

lemma PaiConv_forward_shape:
  assumes "is_tensor3 B C N feature" "1 \<le> B" "1 \<le> C" "1 \<le> pc_out_c L"
    and "list_all (\<lambda>j. j < B * N) si" "\<not> (training \<and> B * N = 1)"
  shows "\<exists>y. PaiConv_forward training L feature si pm = Inr y \<and> is_tensor3 B (pc_out_c L) N y"
proof -
  have lx: "length feature = B" using assms(1) by (simp add: is_tensor3_def)
  have sz: "size2 feature = N" using assms(1-3) by (rule size_is_tensor3(2))
  have "list_all (\<lambda>j. j < length (flatten_points N feature)) si"
    using assms(5) by (simp add: length_flatten_points lx)
  then have g: "gather (flatten_points N feature) si
              = Inr (map (\<lambda>j. flatten_points N feature ! j) si)"
    by (rule gather_ok)
  show ?thesis
    unfolding PaiConv_forward_def Let_def lx sz g then_do_Inr
    by (rule BatchNorm1d_forward_shape [OF is_tensor3_view_transpose assms(4,6)])
qed

lemma length_Linear_forward:
  assumes "Linear_constructed n_in n_out hb L"
  shows "length (Linear_forward L v) = n_out"
  using assms
  by (auto simp: Linear_constructed_def Linear_forward_def Let_def is_matrix_def
      split: option.splits)

lemma is_matrix_map_Linear:
  assumes "Linear_constructed n_in n_out hb L" "length x = B"
  shows "is_matrix B n_out (map (Linear_forward L) x)"
  using assms by (simp add: is_matrix_def length_Linear_forward)

lemma collect_pool:
  assumes "\<forall>r \<in> set xb. r \<noteq> []" "\<forall>r. r \<noteq> [] \<longrightarrow> (\<exists>v. pool r = Inr v)"
  shows "\<exists>p. collect (map pool xb) = Inr p \<and> length p = length xb"
  using assms(1)
proof (induction xb)
  case Nil
  then show ?case by simp
next
  case (Cons r xb)
  then obtain p where p: "collect (map pool xb) = Inr p" "length p = length xb" by auto
  from Cons.prems assms(2) obtain v where "pool r = Inr v" by auto
  then show ?case using p by simp
qed

lemma collect_all:
  assumes "\<forall>y \<in> set ys. \<exists>v. f y = Inr v \<and> Q v"
  shows "\<exists>vs. collect (map f ys) = Inr vs \<and> length vs = length ys \<and> (\<forall>v \<in> set vs. Q v)"
  using assms
proof (induction ys)
  case Nil
  then show ?case by simp
next
  case (Cons y ys)
  then obtain vs where vs: "collect (map f ys) = Inr vs" "length vs = length ys"
    "\<forall>v \<in> set vs. Q v" by auto
  from Cons.prems obtain v where "f y = Inr v" "Q v" by auto
  then show ?case using vs by simp
qed

lemma pool_shape:
  assumes "is_tensor3 B C N x" "1 \<le> N" "\<forall>r. r \<noteq> [] \<longrightarrow> (\<exists>v. pool r = Inr v)"
  shows "\<exists>p. collect (map (\<lambda>xb. collect (map pool xb)) x) = Inr p \<and> is_matrix B C p"
proof -
  have "\<exists>v. collect (map pool xb) = Inr v \<and> length v = C" if "xb \<in> set x" for xb
  proof -
    from that assms(1) have m: "is_matrix C N xb" by (simp add: is_tensor3_def)
    then have "\<forall>r \<in> set xb. r \<noteq> []" using assms(2) by (auto simp: is_matrix_def)
    from collect_pool [OF this assms(3)] m show ?thesis by (simp add: is_matrix_def)
  qed
  then have "\<forall>xb \<in> set x. \<exists>v. collect (map pool xb) = Inr v \<and> length v = C" by blast
  from collect_all [OF this] assms(1) show ?thesis
    by (auto simp: is_matrix_def is_tensor3_def)
qed

lemma adaptive_max_pool1d_shape:
  assumes "is_tensor3 B C N x" "1 \<le> N"
  shows "\<exists>p. adaptive_max_pool1d x = Inr p \<and> is_matrix B C p"
  unfolding adaptive_max_pool1d_def
  by (rule pool_shape [OF assms]) (auto simp: pool_max_def split: list.splits)

lemma adaptive_avg_pool1d_shape:
  assumes "is_tensor3 B C N x" "1 \<le> N"
  shows "\<exists>p. adaptive_avg_pool1d x = Inr p \<and> is_matrix B C p"
  unfolding adaptive_avg_pool1d_def
  by (rule pool_shape [OF assms]) (auto simp: pool_avg_def split: list.splits)

lemma is_tensor3_cat4:
  assumes "is_tensor3 B C1 N x1" "is_tensor3 B C2 N x2" "is_tensor3 B C3 N x3"
    "is_tensor3 B C4 N x4"
  shows "is_tensor3 B (C1 + C2 + C3 + C4) N
           (map (\<lambda>b. x1 ! b @ x2 ! b @ x3 ! b @ x4 ! b) [0..<B])"
  using assms by (auto simp: is_tensor3_def is_matrix_def)

lemma is_tensor3_Conv1d:
  assumes "is_tensor3 B C N x" "1 \<le> C"
  shows "is_tensor3 B (length (cv_weight cv)) N (Conv1d_forward cv x)"
proof -
  have "ncols xb = N" if "xb \<in> set x" for xb using assms that by (rule ncols_cloud)
  then show ?thesis
    using assms(1) by (auto simp: is_tensor3_def is_matrix_def Conv1d_forward_def)
qed

lemma is_matrix_cat2:
  assumes "is_matrix B C1 p1" "is_matrix B C2 p2"
  shows "is_matrix B (C1 + C2) (map2 (\<lambda>r1 r2. r1 @ r2) p1 p2)"
proof -
  have "length (r1 @ r2) = C1 + C2" if "(r1, r2) \<in> set (zip p1 p2)" for r1 r2
  proof -
    from that have "r1 \<in> set p1" "r2 \<in> set p2" by (auto dest: set_zip_leftD set_zip_rightD)
    with assms show ?thesis by (simp add: is_matrix_def)
  qed
  then show ?thesis using assms by (auto simp: is_matrix_def)
qed

lemma length_Dropout_forward: "length (Dropout_forward training dp keep x) = length x"
  by (simp add: Dropout_forward_def)

lemma PaiNet_run_ok:
  assumes c: "PaiNet_constructed a oc net"
    and x: "is_tensor3 B 3 N x" "1 \<le> B" and k: "args_k a \<le> N"
    and t: "\<not> (training \<and> B = 1)"
  shows "\<exists>logits calls x7 y7. PaiNet_run net training masks x = Inr (logits, calls)
           \<and> length x7 = B
           \<and> BatchNorm1d_forward2 training (bn7 net) (map (Linear_forward (linear2 net)) x7)
               = Inr y7
           \<and> is_matrix B 256 y7
           \<and> logits = map (Linear_forward (linear3 net))
                         (Dropout_forward training (dp2 net) (snd masks) (map (map gelu) y7))"
proof -
  let ?P = "paiIdxMatrix net"
  from c have init: "PaiIndexMatrix_init a 16 (pim_temp_net ?P) = Inr ?P"
    and c1: "pc_out_c (conv1 net) = 64" and c2: "pc_out_c (conv2 net) = 64"
    and c3: "pc_out_c (conv3 net) = 128" and c4: "pc_out_c (conv4 net) = 256"
    and w5: "length (cv_weight (conv5 net)) = args_emb_dims a" and e: "1 \<le> args_emb_dims a"
    and l1: "Linear_constructed (args_emb_dims a * 2) 512 False (linear1 net)"
    and l2: "Linear_constructed 512 256 True (linear2 net)"
    by (simp_all add: PaiNet_constructed_def PaiConv_constructed_def is_matrix_def)
  have k1: "1 \<le> args_k a" using init by (rule init_fields(2))
  then have n1: "1 \<le> N" using k by simp
  have tn: "\<not> (training \<and> B * N = 1)" using t by auto
  from forward_ok [OF init x k] obtain idx G where
    rng: "list_all (\<lambda>j. j < B * N) (offset_index B N idx)"
    and fw: "PaiIndexMatrix_forward ?P x =
               Inr (offset_index B N idx, map (\<lambda>sp. topkmax1 (affinity ?P sp)) G)" by blast
  let ?si = "offset_index B N idx"
  let ?pm = "map (\<lambda>sp. topkmax1 (affinity ?P sp)) G"
  have lx: "length x = B" using x(1) by (simp add: is_tensor3_def)
  from PaiConv_forward_shape [OF x(1,2) _ _ rng tn, of "conv1 net" ?pm] obtain y1 where
    y1: "PaiConv_forward training (conv1 net) x ?si ?pm = Inr y1" "is_tensor3 B 64 N y1"
    by (auto simp: c1)
  let ?x1 = "map (map (map gelu)) y1"
  have x1: "is_tensor3 B 64 N ?x1" using y1(2) by (rule is_tensor3_map3)
  from PaiConv_forward_shape [OF x1 x(2) _ _ rng tn, of "conv2 net" ?pm] obtain y2 where
    y2: "PaiConv_forward training (conv2 net) ?x1 ?si ?pm = Inr y2" "is_tensor3 B 64 N y2"
    by (auto simp: c2)
  let ?x2 = "map (map (map gelu)) y2"
  have x2: "is_tensor3 B 64 N ?x2" using y2(2) by (rule is_tensor3_map3)
  from PaiConv_forward_shape [OF x2 x(2) _ _ rng tn, of "conv3 net" ?pm] obtain y3 where
    y3: "PaiConv_forward training (conv3 net) ?x2 ?si ?pm = Inr y3" "is_tensor3 B 128 N y3"
    by (auto simp: c3)
  let ?x3 = "map (map (map gelu)) y3"
  have x3: "is_tensor3 B 128 N ?x3" using y3(2) by (rule is_tensor3_map3)
  from PaiConv_forward_shape [OF x3 x(2) _ _ rng tn, of "conv4 net" ?pm] obtain y4 where
    y4: "PaiConv_forward training (conv4 net) ?x3 ?si ?pm = Inr y4" "is_tensor3 B 256 N y4"
    by (auto simp: c4)
  let ?x4 = "map (map (map gelu)) y4"
  have x4: "is_tensor3 B 256 N ?x4" using y4(2) by (rule is_tensor3_map3)
  let ?xc = "map (\<lambda>b. ?x1 ! b @ ?x2 ! b @ ?x3 ! b @ ?x4 ! b) [0..<B]"
  have xc: "is_tensor3 B (64 + 64 + 128 + 256) N ?xc"
    using x1 x2 x3 x4 by (rule is_tensor3_cat4)
  have "is_tensor3 B (args_emb_dims a) N (Conv1d_forward (conv5 net) ?xc)"
    using is_tensor3_Conv1d [OF xc, of "conv5 net"] by (simp add: w5)
  from BatchNorm1d_forward_shape [OF this e tn, of "bn5 net"] obtain y5 where
    y5: "BatchNorm1d_forward training (bn5 net) (Conv1d_forward (conv5 net) ?xc) = Inr y5"
    "is_tensor3 B (args_emb_dims a) N y5" by blast
  let ?x5 = "map (map (map gelu)) y5"
  have x5: "is_tensor3 B (args_emb_dims a) N ?x5" using y5(2) by (rule is_tensor3_map3)
  from adaptive_max_pool1d_shape [OF x5 n1] obtain p1 where
    p1: "adaptive_max_pool1d ?x5 = Inr p1" "is_matrix B (args_emb_dims a) p1" by blast
  from adaptive_avg_pool1d_shape [OF x5 n1] obtain p2 where
    p2: "adaptive_avg_pool1d ?x5 = Inr p2" "is_matrix B (args_emb_dims a) p2" by blast
  let ?x6 = "map2 (\<lambda>r1 r2. r1 @ r2) p1 p2"
  have "length ?x6 = B" using p1(2) p2(2) by (simp add: is_matrix_def)
  with l1 have "is_matrix B 512 (map (Linear_forward (linear1 net)) ?x6)"
    by (rule is_matrix_map_Linear)
  from BatchNorm1d_forward2_shape [OF this _ t, of "bn6 net"] obtain y6 where
    y6: "BatchNorm1d_forward2 training (bn6 net) (map (Linear_forward (linear1 net)) ?x6) = Inr y6"
    "is_matrix B 512 y6" by auto
  let ?x7 = "Dropout_forward training (dp1 net) (fst masks) (map (map gelu) y6)"
  have lx7: "length ?x7 = B" using y6(2) by (simp add: length_Dropout_forward is_matrix_def)
  with l2 have "is_matrix B 256 (map (Linear_forward (linear2 net)) ?x7)"
    by (rule is_matrix_map_Linear)
  from BatchNorm1d_forward2_shape [OF this _ t, of "bn7 net"] obtain y7 where
    y7: "BatchNorm1d_forward2 training (bn7 net) (map (Linear_forward (linear2 net)) ?x7) = Inr y7"
    "is_matrix B 256 y7" by auto
  have "PaiNet_run net training masks x =
     Inr (map (Linear_forward (linear3 net))
            (Dropout_forward training (dp2 net) (snd masks) (map (map gelu) y7)),
          [Call_paiIdxMatrix x, Call_conv 1 x ?si ?pm, Call_conv 2 ?x1 ?si ?pm,
           Call_conv 3 ?x2 ?si ?pm, Call_conv 4 ?x3 ?si ?pm])"
    by (simp add: PaiNet_run_def Let_def fw lx y1(1) y2(1) y3(1) y4(1) y5(1) p1(1) p2(1)
        y6(1) [simplified] y7(1))
  with lx7 y7 show ?thesis by blast
qed

lemma erf_series_bound:
  fixes t :: real
  shows "\<bar>\<Sum>n. (- 1) ^ n * t ^ (2 * n + 1) / (fact n * real (2 * n + 1))\<bar> \<le> \<bar>t\<bar> * exp (t\<^sup>2)"
proof -
  let ?f = "\<lambda>n. (- 1) ^ n * t ^ (2 * n + 1) / (fact n * real (2 * n + 1))"
  let ?g = "\<lambda>n. \<bar>t\<bar> * ((t\<^sup>2) ^ n /\<^sub>R fact n)"
  have sg: "summable ?g" by (intro summable_mult summable_exp_generic)
  have le: "\<bar>?f n\<bar> \<le> ?g n" for n
  proof -
    have "\<bar>?f n\<bar> = \<bar>t\<bar> * (t\<^sup>2) ^ n / (fact n * real (2 * n + 1))"
      by (simp add: abs_mult power_abs power_mult [symmetric] power_even_abs)
    also have "\<dots> \<le> \<bar>t\<bar> * (t\<^sup>2) ^ n / (fact n * 1)"
      by (intro divide_left_mono mult_left_mono mult_pos_pos mult_nonneg_nonneg) simp_all
    also have "\<dots> = ?g n" by (simp add: divide_inverse)
    finally show ?thesis .
  qed
  have sa: "summable (\<lambda>n. \<bar>?f n\<bar>)"
  proof (rule summable_comparison_test' [OF sg])
    fix n :: nat
    have "norm \<bar>?f n\<bar> = \<bar>?f n\<bar>" by (simp only: real_norm_def abs_abs)
    then show "norm \<bar>?f n\<bar> \<le> ?g n" using le [of n] by (simp only:)
  qed
  have "\<bar>suminf ?f\<bar> \<le> (\<Sum>n. \<bar>?f n\<bar>)" using sa by (rule summable_rabs)
  also have "\<dots> \<le> suminf ?g" using le sa sg by (intro suminf_le) simp_all
  also have "\<dots> = \<bar>t\<bar> * (\<Sum>n. (t\<^sup>2) ^ n /\<^sub>R fact n)"
    by (rule suminf_mult [OF summable_exp_generic])
  also have "\<dots> = \<bar>t\<bar> * exp (t\<^sup>2)" by (simp only: exp_def)
  finally show ?thesis .
qed

lemma gelu_tenth_pos: "0 < gelu (1 / 10)"
proof -
  define t :: real where "t = (1 / 10) / sqrt 2"
  have t1: "\<bar>t\<bar> \<le> 1 / 10"
  proof -
    have "1 \<le> sqrt 2" by simp
    then have "(1 / 10) / sqrt 2 \<le> (1 / 10) / 1" by (intro divide_left_mono) simp_all
    then show ?thesis by (simp add: t_def)
  qed
  have t2: "t\<^sup>2 \<le> 1"
  proof -
    have "\<bar>t\<bar> \<le> 1" using t1 by simp
    then show ?thesis by (simp add: abs_square_le_1)
  qed
  have "exp (t\<^sup>2) \<le> exp 1" using t2 by simp
  also have "\<dots> \<le> 3" by (rule exp_le)
  finally have e: "exp (t\<^sup>2) \<le> 3" .
  have "\<bar>t\<bar> * exp (t\<^sup>2) \<le> (1 / 10) * 3"
    using t1 e by (intro mult_mono) simp_all
  with erf_series_bound [of t]
  have s: "\<bar>\<Sum>n. (- 1) ^ n * t ^ (2 * n + 1) / (fact n * real (2 * n + 1))\<bar> \<le> 3 / 10" by simp
  have "1 \<le> sqrt pi" using pi_ge_two by simp
  then have "2 / sqrt pi \<le> 2 / 1" by (intro divide_left_mono) simp_all
  then have p: "\<bar>2 / sqrt pi\<bar> \<le> 2" by simp
  have "\<bar>erf t\<bar> = \<bar>2 / sqrt pi\<bar> * \<bar>\<Sum>n. (- 1) ^ n * t ^ (2 * n + 1) / (fact n * real (2 * n + 1))\<bar>"
    by (simp only: erf_def abs_mult)
  also have "\<dots> \<le> 2 * (3 / 10)" using p s by (intro mult_mono) simp_all
  finally have "\<bar>erf t\<bar> \<le> 6 / 10" by simp
  then have "0 < 1 + erf t" by simp
  then show ?thesis by (simp add: gelu_def t_def)
qed

lemma sample_net_constructed: "PaiNet_constructed sample_args 1 sample_net"
proof -
  from init_ok [of 16 sample_args sample_temp_net] obtain P where
    P: "PaiIndexMatrix_init sample_args 16 sample_temp_net = Inr P"
    by (auto simp: sample_args_def)
  have tn: "pim_temp_net P = sample_temp_net" using P by (rule init_fields(7))
  have "PaiIndexMatrix_init sample_args 16 (pim_temp_net (paiIdxMatrix sample_net))
          = Inr (paiIdxMatrix sample_net)"
    by (simp add: sample_net_def P tn)
  moreover have "PaiConv_constructed i out 2 16 (sample_conv i out)" for i out
    by (simp add: PaiConv_constructed_def sample_conv_def Linear_constructed_def
        BatchNorm1d_constructed_def sample_bn_def is_matrix_def)
  ultimately show ?thesis
    by (simp add: PaiNet_constructed_def sample_net_def sample_args_def Linear_constructed_def
        BatchNorm1d_constructed_def sample_bn_def is_matrix_def)
qed

lemma sample_batch_shape: "is_tensor3 2 3 2 sample_batch"
  by (simp add: sample_batch_def is_tensor3_def is_matrix_def)

lemma BatchNorm1d_forward2_zero_weight:
  assumes "is_matrix B C x" "\<forall>c < C. bn_weight bn ! c = 0"
    and "BatchNorm1d_forward2 training bn x = Inr y"
  shows "y = replicate B (map (\<lambda>c. bn_bias bn ! c) [0..<C])"
proof -
  let ?X = "map (map (\<lambda>v. [v])) x"
  from assms(3) have
    "y = map (map (\<lambda>r. r ! 0))
           (map (\<lambda>xb. map (\<lambda>c. map (bn_affine training bn c (concat (map (\<lambda>xb. xb ! c) ?X)))
                                  (xb ! c)) [0..<length xb]) ?X)"
    by (auto simp: BatchNorm1d_forward2_def BatchNorm1d_forward_def split: if_splits)
  also have "\<dots> = replicate B (map (\<lambda>c. bn_bias bn ! c) [0..<C])"
  proof (rule nth_equalityI)
    show "length (map (map (\<lambda>r. r ! 0))
           (map (\<lambda>xb. map (\<lambda>c. map (bn_affine training bn c (concat (map (\<lambda>xb. xb ! c) ?X)))
                                  (xb ! c)) [0..<length xb]) ?X))
          = length (replicate B (map (\<lambda>c. bn_bias bn ! c) [0..<C]))"
      using assms(1) by (simp add: is_matrix_def)
    fix b assume "b < length (map (map (\<lambda>r. r ! 0))
           (map (\<lambda>xb. map (\<lambda>c. map (bn_affine training bn c (concat (map (\<lambda>xb. xb ! c) ?X)))
                                  (xb ! c)) [0..<length xb]) ?X))"
    then have b: "b < B" using assms(1) by (simp add: is_matrix_def)
    then have lb: "length (x ! b) = C" using assms(1) by (simp add: is_matrix_def)
    have lx: "length x = B" using assms(1) by (simp add: is_matrix_def)
    show "map (map (\<lambda>r. r ! 0))
           (map (\<lambda>xb. map (\<lambda>c. map (bn_affine training bn c (concat (map (\<lambda>xb. xb ! c) ?X)))
                                  (xb ! c)) [0..<length xb]) ?X) ! b
          = replicate B (map (\<lambda>c. bn_bias bn ! c) [0..<C]) ! b"
      using b lb lx assms(2) by (simp add: bn_affine_def)
  qed
  finally show ?thesis .
qed

lemma sum_unit_weight:
  fixes v :: "real list"
  assumes "length v = Suc n"
  shows "sum_list (map2 (\<lambda>a b. a * b) (1 # replicate n 0) v) = v ! 0"
proof -
  from assms obtain a vs where v: "v = a # vs" by (cases v) auto
  have "sum_list (map2 (\<lambda>a b. a * b) (replicate n 0) vs) = 0"
    using sum_zip_zero_left [of "replicate n 0" "\<lambda>b. b" vs] by simp
  then show ?thesis by (simp add: v)
qed

lemma sample_logits:
  assumes "snd masks ! 0 ! 0 = keep"
  shows "\<exists>l. PaiNet_forward sample_net True masks sample_batch = Inr l
           \<and> l ! 0 ! 0 = (if keep then gelu (1 / 10) / (1 / 2) else 0)"
proof -
  have k: "args_k sample_args \<le> 2" by (simp add: sample_args_def)
  have t: "\<not> (True \<and> (2::nat) = 1)" by simp
  from PaiNet_run_ok [OF sample_net_constructed sample_batch_shape _ k t, of masks]
  obtain logits calls x7 y7 where
    r: "PaiNet_run sample_net True masks sample_batch = Inr (logits, calls)"
    and x7: "length x7 = 2"
    and y7: "BatchNorm1d_forward2 True (bn7 sample_net)
               (map (Linear_forward (linear2 sample_net)) x7) = Inr y7"
    and l: "logits = map (Linear_forward (linear3 sample_net))
                       (Dropout_forward True (dp2 sample_net) (snd masks) (map (map gelu) y7))"
    by auto
  have "Linear_constructed 512 256 True (linear2 sample_net)"
    using sample_net_constructed by (simp add: PaiNet_constructed_def)
  then have m: "is_matrix 2 256 (map (Linear_forward (linear2 sample_net)) x7)"
    using x7 by (rule is_matrix_map_Linear)
  have w: "\<forall>c < 256. bn_weight (bn7 sample_net) ! c = 0" by (simp add: sample_net_def)
  from BatchNorm1d_forward2_zero_weight [OF m w y7]
  have "y7 = replicate 2 (map (\<lambda>c. bn_bias (bn7 sample_net) ! c) [0..<256])" .
  also have "map (\<lambda>c. bn_bias (bn7 sample_net) ! c) [0..<256] = replicate 256 (1 / 10)"
    by (rule nth_equalityI) (simp_all add: sample_net_def)
  finally have y: "y7 = replicate 2 (replicate 256 (1 / 10))" .
  let ?d = "Dropout_forward True (dp2 sample_net) (snd masks) (map (map gelu) y7)"
  have d0: "length (?d ! 0) = Suc 255" by (simp add: Dropout_forward_def y)
  have d00: "?d ! 0 ! 0 = (if keep then gelu (1 / 10) / (1 / 2) else 0)"
    using assms by (simp add: Dropout_forward_def y sample_net_def)
  have lw: "lin_weight (linear3 sample_net) = [1 # replicate 255 0]"
    "lin_bias (linear3 sample_net) = Some [0]" by (simp_all add: sample_net_def)
  have "logits ! 0 = Linear_forward (linear3 sample_net) (?d ! 0)"
    by (simp add: l length_Dropout_forward y)
  also have "\<dots> ! 0 = ?d ! 0 ! 0 + 0"
    by (simp add: Linear_forward_def lw sum_unit_weight [OF d0])
  finally have "logits ! 0 ! 0 = (if keep then gelu (1 / 10) / (1 / 2) else 0)"
    by (simp only: d00 add_0_right)
  then show ?thesis by (simp add: PaiNet_forward_def r)
qed

section \<open>The properties\<close>




text \<open>
  C2. For every non-negative input tensor (one \<open>R \<times> C\<close> matrix per point), \<open>topkmax\<close>
  keeps the shape, every non-zero entry of the result is at least 0.1 and at most 1, and
  every entry that is exactly 0 in the input is exactly 0 in the result.
\<close>

theorem topkmax_entries:
  assumes "is_tensor3 B R C t" "nonneg3 t"
  shows "is_tensor3 B R C (topkmax t)
       \<and> (\<forall>b p c. b < B \<and> p < R \<and> c < C \<longrightarrow>
            (topkmax t ! b ! p ! c \<noteq> 0 \<longrightarrow>
               1 / 10 \<le> topkmax t ! b ! p ! c \<and> topkmax t ! b ! p ! c \<le> 1)
            \<and> (t ! b ! p ! c = 0 \<longrightarrow> topkmax t ! b ! p ! c = 0))"
  using is_tensor3_topkmax [OF assms(1)] topkmax_retained [OF assms] by blast

theorem topkmax_entries_witness:
  "is_tensor3 1 2 2 [[[1, 0], [1, 2 :: real]]] \<and> nonneg3 [[[1, 0], [1, 2]]]
   \<and> is_tensor3 1 2 2 (topkmax [[[1, 0], [1, 2]]])
   \<and> topkmax [[[1, 0], [1, 2]]] ! 0 ! 0 ! 1 = 0
   \<and> 1 / 10 \<le> topkmax [[[1, 0], [1, 2]]] ! 0 ! 1 ! 1
   \<and> topkmax [[[1, 0], [1, 2]]] ! 0 ! 1 ! 1 \<le> 1"
proof -
  let ?t = "[[[1, 0], [1, 2 :: real]]]"
  have h1: "is_tensor3 1 2 2 ?t" by (simp add: is_tensor3_def is_matrix_def)
  have h2: "nonneg3 ?t" by (simp add: nonneg3_def)
  have nz: "topkmax ?t ! 0 ! 1 ! 1 \<noteq> 0" by (simp add: sample_topkmax)
  from topkmax_entries [OF h1 h2] nz h1 h2 show ?thesis by simp
qed









text \<open>
  C6. For every \<open>kernelSize \<ge> 1\<close>, \<open>fibonacci_sphere(kernelSize, randomize=False)\<close>
  returns (no exception) exactly \<open>kernelSize\<close> points, each with three coordinates, its
  element 0 is the origin, and a second call returns the same list whatever the state of
  the random generator (\<open>u\<close>, \<open>u'\<close>) is.
\<close>

theorem fibonacci_sphere_deterministic:
  assumes "1 \<le> kernelSize"
  shows "\<exists>pts. fibonacci_sphere kernelSize False u = Inr pts
           \<and> length pts = nat kernelSize
           \<and> (\<forall>p \<in> set pts. length p = 3)
           \<and> pts ! 0 = [0, 0, 0]
           \<and> fibonacci_sphere kernelSize False u' = Inr pts"
proof -
  from fibonacci_sphere_ok [OF assms, of False u] obtain ps where
    e: "fibonacci_sphere kernelSize False u = Inr ([0, 0, 0] # ps)"
    and n: "Suc (length ps) = nat kernelSize" and o: "\<forall>p \<in> set ps. on_sphere p" by blast
  have "fibonacci_sphere kernelSize False u' = fibonacci_sphere kernelSize False u"
    by (simp add: fibonacci_sphere_def)
  with e have "fibonacci_sphere kernelSize False u' = Inr ([0, 0, 0] # ps)" by simp
  moreover have "\<forall>p \<in> set ([0, 0, 0] # ps). length p = 3"
    using o by (simp add: on_sphere_def)
  moreover have "length ([0, 0, 0] # ps) = nat kernelSize" using n by simp
  moreover have "([0, 0, 0] # ps) ! 0 = [0, 0, 0]" by simp
  ultimately show ?thesis using e by blast
qed

theorem fibonacci_sphere_deterministic_witness:
  "(1::int) \<le> 2 \<and>
   (\<exists>pts. fibonacci_sphere 2 False 0 = Inr pts
      \<and> length pts = nat 2
      \<and> (\<forall>p \<in> set pts. length p = 3)
      \<and> pts ! 0 = [0, 0, 0]
      \<and> fibonacci_sphere 2 False (1 / 2) = Inr pts)"
  using fibonacci_sphere_deterministic [of 2 0 "1 / 2"] by simp

text \<open>
  C10. For every \<open>samples \<ge> 1\<close> the call returns a list of \<open>samples\<close> points (the square
  root is always defined), and every returned point other than element 0 lies on the unit
  sphere: \<open>x\<^sup>2 + y\<^sup>2 + z\<^sup>2 = 1\<close> for each index \<open>1 \<le> i < samples\<close>.
\<close>

theorem fibonacci_sphere_unit_norm:
  assumes "1 \<le> samples"
  shows "\<exists>pts. fibonacci_sphere samples randomize u = Inr pts
           \<and> length pts = nat samples
           \<and> (\<forall>i. 1 \<le> i \<and> i < nat samples \<longrightarrow>
                 length (pts ! i) = 3
                 \<and> (pts ! i ! 0) ^ 2 + (pts ! i ! 1) ^ 2 + (pts ! i ! 2) ^ 2 = 1)"
proof -
  from fibonacci_sphere_ok [OF assms, of randomize u] obtain ps where
    e: "fibonacci_sphere samples randomize u = Inr ([0, 0, 0] # ps)"
    and n: "Suc (length ps) = nat samples" and o: "\<forall>p \<in> set ps. on_sphere p" by blast
  have "length (([0, 0, 0] # ps) ! i) = 3
      \<and> (([0, 0, 0] # ps) ! i ! 0) ^ 2 + (([0, 0, 0] # ps) ! i ! 1) ^ 2
          + (([0, 0, 0] # ps) ! i ! 2) ^ 2 = 1"
    if "1 \<le> i \<and> i < nat samples" for i
  proof -
    from that n obtain j where j: "i = Suc j" "j < length ps"
      by (cases i) auto
    then have "ps ! j \<in> set ps" by simp
    with o have "on_sphere (ps ! j)" by blast
    then show ?thesis using j by (simp add: on_sphere_def)
  qed
  moreover have "length ([0, 0, 0] # ps) = nat samples" using n by simp
  ultimately show ?thesis using e by blast
qed

theorem fibonacci_sphere_unit_norm_witness:
  "(1::int) \<le> 3 \<and>
   (\<exists>pts. fibonacci_sphere 3 False 0 = Inr pts
      \<and> length pts = 3
      \<and> (pts ! 1 ! 0) ^ 2 + (pts ! 1 ! 1) ^ 2 + (pts ! 1 ! 2) ^ 2 = 1
      \<and> (pts ! 2 ! 0) ^ 2 + (pts ! 2 ! 1) ^ 2 + (pts ! 2 ! 2) ^ 2 = 1)"
proof -
  from fibonacci_sphere_unit_norm [of 3 False 0] obtain pts where
    e: "fibonacci_sphere 3 False 0 = Inr pts" and n: "length pts = nat 3"
    and s: "\<forall>i. 1 \<le> i \<and> i < nat 3 \<longrightarrow>
              length (pts ! i) = 3
              \<and> (pts ! i ! 0) ^ 2 + (pts ! i ! 1) ^ 2 + (pts ! i ! 2) ^ 2 = 1"
    by auto
  from s have "(pts ! 1 ! 0) ^ 2 + (pts ! 1 ! 1) ^ 2 + (pts ! 1 ! 2) ^ 2 = 1" by simp
  moreover from s have "(pts ! 2 ! 0) ^ 2 + (pts ! 2 ! 1) ^ 2 + (pts ! 2 ! 2) ^ 2 = 1"
    by simp
  ultimately show ?thesis using e n by auto
qed



text \<open>
  C8, amended. In evaluation mode the logits of \<open>PaiNet.forward\<close> do not depend on the
  decisions of the random generator: two runs on the same input with the same parameters
  return the same result. (In training mode the two dropout layers make the logits depend
  on these decisions.)
\<close>

theorem eval_mode_deterministic:
  "PaiNet_forward net False masks x = PaiNet_forward net False masks' x"
  by (simp add: PaiNet_forward_def PaiNet_run_def Dropout_forward_def)

text \<open>
  C8 as stated fails in training mode: on the sample network and batch, two runs whose
  dropout decisions differ in one entry of \<open>dp2\<close> return different logits.
\<close>

theorem two_run_counterexample:
  "\<exists>l l'. PaiNet_forward sample_net True sample_keep sample_batch = Inr l
     \<and> PaiNet_forward sample_net True sample_drop sample_batch = Inr l'
     \<and> l \<noteq> l'"
proof -
  have "snd sample_keep ! 0 ! 0 = True" by (simp add: sample_keep_def)
  from sample_logits [OF this] obtain l where
    l: "PaiNet_forward sample_net True sample_keep sample_batch = Inr l"
    "l ! 0 ! 0 = gelu (1 / 10) / (1 / 2)" by auto
  have "snd sample_drop ! 0 ! 0 = False" by (simp add: sample_drop_def)
  from sample_logits [OF this] obtain l' where
    l': "PaiNet_forward sample_net True sample_drop sample_batch = Inr l'"
    "l' ! 0 ! 0 = 0" by auto
  have "l ! 0 ! 0 \<noteq> l' ! 0 ! 0" using gelu_tenth_pos by (simp add: l(2) l'(2))
  then have "l \<noteq> l'" by auto
  with l(1) l'(1) show ?thesis by blast
qed

text \<open>
  C9. Changing the temperature factor (in the configuration and in the indexing submodule)
  and the parameters of the \<open>TemperatureNet\<close> changes neither what the indexing submodule
  returns (NeighborIndex and AssignmentMatrix, or the exception) nor what \<open>PaiNet.forward\<close>
  returns, for every input, mode and dropout decisions.
\<close>

theorem temp_factor_noninterference:
  "PaiIndexMatrix_forward (P\<lparr>pim_temp_factor := t, pim_temp_net := tn\<rparr>) x
     = PaiIndexMatrix_forward P x
   \<and> PaiNet_forward
       (net\<lparr>pn_args := (pn_args net)\<lparr>args_temp_factor := t'\<rparr>,
             paiIdxMatrix := (paiIdxMatrix net)\<lparr>pim_temp_factor := t, pim_temp_net := tn\<rparr>\<rparr>)
       training masks x
     = PaiNet_forward net training masks x"
  by (simp only: PaiNet_forward_def PaiNet_run_temp PaiIndexMatrix_forward_temp)

end
